theory Spec2Isabelle
  imports Main "HOL-Library.Multiset"
begin

section \<open>Values, records and configuration\<close>

text \<open>
  The scraper of \<^verbatim>\<open>tempCodeRunnerFile.py\<close> (class \<^verbatim>\<open>MultiWebsiteScraper\<close>) is embedded
  function by function. Python strings are \<open>string\<close>, one \<open>char\<close> standing for one
  character of the Python \<^verbatim>\<open>str\<close>. A Python \<^verbatim>\<open>dict\<close> is an association list in
  insertion order; \<^verbatim>\<open>d.get(k)\<close> is \<open>map_of d k\<close> and \<^verbatim>\<open>d[k] = v\<close> is \<open>dict_set\<close>.
  The keys of a dictionary are distinct, which the theorems assume of an association list
  where it matters. Lines written to the log are left out; requests and sleeps are kept
  as events.
\<close>

datatype exn = KeyError | TypeError | ValueError | OverflowError | RequestException | LibraryError

text \<open>The values a scraped item holds: \<^verbatim>\<open>None\<close>, a \<^verbatim>\<open>str\<close>, an \<^verbatim>\<open>int\<close>, a list of \<^verbatim>\<open>str\<close>.\<close>

datatype pyval = PyNone | PyStr string | PyInt int | PyList "string list"

type_synonym item = "(string \<times> pyval) list"

type_synonym scraped = "(string \<times> item list) list"

primrec dict_set :: "'k \<Rightarrow> 'v \<Rightarrow> ('k \<times> 'v) list \<Rightarrow> ('k \<times> 'v) list" where
  "dict_set k v [] = [(k, v)]"
| "dict_set k v (p # ps) = (if fst p = k then (k, v) # ps else p # dict_set k v ps)"

text \<open>
  A scalar of the YAML configuration, as far as \<^verbatim>\<open>scrape_website\<close> looks at it: the
  \<^verbatim>\<open>delay\<close> is compared with \<^verbatim>\<open>0\<close>, which raises \<^verbatim>\<open>TypeError\<close> on \<^verbatim>\<open>None\<close> and on a
  \<^verbatim>\<open>str\<close>. Numeric delays are integers here.
\<close>

datatype cfg_value = CNull | CInt int | CStr string

text \<open>A key that the configuration file leaves out is \<open>None\<close>.\<close>

record website_config =
  enabled :: "bool option"
  base_url :: "string option"
  pages :: "string list option"
  selectors :: "(string \<times> string) list option"
  delay :: "cfg_value option"

record scraper_config =
  max_workers :: "int option"
  default_delay :: "cfg_value option"
  retries :: "int option"

section \<open>The outside world\<close>

text \<open>
  What the task observes of the outside is a parameter of the model. \<open>http_get env k url\<close>
  is the outcome of the \<open>k\<close>-th request the task issues (counted from 0): the whole
  \<^verbatim>\<open>try\<close> block of \<^verbatim>\<open>get_page_content\<close>, that is \<^verbatim>\<open>session.get\<close> with the configured timeout,
  \<^verbatim>\<open>raise_for_status\<close> and the parse, either a parsed page or the exception raised.
  \<open>utcnow env k\<close> is the \<open>k\<close>-th reading of \<^verbatim>\<open>datetime.now(timezone.utc).isoformat()\<close>.
  \<open>select\<close> and \<open>get_text\<close> are the selector engine on a page or on a container
  (\<^verbatim>\<open>get_text(strip=True)\<close>), \<open>urljoin\<close> is \<^verbatim>\<open>urllib.parse.urljoin\<close>.
\<close>

record 'n env =
  http_get :: "nat \<Rightarrow> string \<Rightarrow> exn + 'n"
  utcnow :: "nat \<Rightarrow> string"
  select :: "'n \<Rightarrow> string \<Rightarrow> exn + 'n list"
  get_text :: "'n \<Rightarrow> string"
  urljoin :: "string \<Rightarrow> string \<Rightarrow> string"

text \<open>
  What the task does to the outside: a request attempt (with the attempt number that is
  logged) and a \<^verbatim>\<open>time.sleep\<close>. The state of a task counts its requests and clock
  readings and keeps the trace of its events.
\<close>

datatype event = Attempt string nat | Sleep int

record world =
  requests :: nat
  clock_reads :: nat
  trace :: "event list"

definition world0 :: world where
  "world0 = \<lparr>requests = 0, clock_reads = 0, trace = []\<rparr>"

definition emit :: "event \<Rightarrow> world \<Rightarrow> world" where
  "emit e w = w\<lparr>trace := trace w @ [e]\<rparr>"

section \<open>get_page_content\<close>

text \<open>
  The loop \<^verbatim>\<open>for attempt in range(retries + 1)\<close> runs over the list of attempt indices.
  Only \<^verbatim>\<open>RequestException\<close> is caught; any other exception leaves the function. The
  result \<open>Inr None\<close> is the \<^verbatim>\<open>None\<close> the function returns, \<open>Inr (Some soup)\<close> a parsed
  page, \<open>Inl e\<close> an exception that reaches the caller.
\<close>

fun fetch_attempts :: "'n env \<Rightarrow> string \<Rightarrow> int \<Rightarrow> nat list \<Rightarrow> world \<Rightarrow> (exn + 'n option) \<times> world" where
  "fetch_attempts env url retries' [] w = (Inr None, w)"
| "fetch_attempts env url retries' (attempt # rest) w =
     (let w1 = emit (Attempt url (attempt + 1)) (w\<lparr>requests := requests w + 1\<rparr>) in
      case http_get env (requests w) url of
        Inr soup \<Rightarrow> (Inr (Some soup), w1)
      | Inl e \<Rightarrow>
          if e = RequestException then
            (if int attempt < retries'
             then fetch_attempts env url retries' rest (emit (Sleep ((int attempt + 1) * 2)) w1)
             else (Inr None, w1))
          else (Inl e, w1))"

definition get_page_content :: "'n env \<Rightarrow> scraper_config \<Rightarrow> string \<Rightarrow> int option \<Rightarrow> world \<Rightarrow> (exn + 'n option) \<times> world" where
  "get_page_content env cfg url retries_arg w =
     (let retries' = (case retries_arg of
                        Some r \<Rightarrow> r
                      | None \<Rightarrow> (case retries cfg of Some r \<Rightarrow> r | None \<Rightarrow> 3))
      in fetch_attempts env url retries' [0..<nat (retries' + 1)] w)"

section \<open>extract_data_from_soup\<close>

definition endswith :: "string \<Rightarrow> string \<Rightarrow> bool" where
  "endswith s suf = (length suf \<le> length s \<and> drop (length s - length suf) s = suf)"

text \<open>Truth value of \<^verbatim>\<open>selectors.get(k)\<close>: \<^verbatim>\<open>None\<close> and the empty string are false.\<close>

definition truthy :: "string option \<Rightarrow> bool" where
  "truthy v = (case v of None \<Rightarrow> False | Some s \<Rightarrow> s \<noteq> [])"

definition py_or :: "string option \<Rightarrow> string option \<Rightarrow> string option" where
  "py_or a b = (if truthy a then a else b)"

definition container_selector :: "(string \<times> string) list \<Rightarrow> string option" where
  "container_selector sels =
     py_or (py_or (map_of sels ''quote_container'') (map_of sels ''book_container''))
           (map_of sels ''data_container'')"

text \<open>
  The inner \<^verbatim>\<open>try\<close> of the field loop: the value stored under \<open>field\<close>. An exception of
  \<^verbatim>\<open>container.select\<close> is caught and stores \<^verbatim>\<open>None\<close>.
\<close>

definition field_value :: "'n env \<Rightarrow> 'n \<Rightarrow> string \<Rightarrow> string \<Rightarrow> pyval" where
  "field_value env container field selector =
     (case select env container selector of
        Inl e \<Rightarrow> PyNone
      | Inr elements \<Rightarrow>
          (case elements of
             [] \<Rightarrow> PyNone
           | first # others \<Rightarrow>
               if field = ''tags'' then PyList (map (get_text env) elements)
               else PyStr (get_text env first)))"

fun extract_fields :: "'n env \<Rightarrow> 'n \<Rightarrow> (string \<times> string) list \<Rightarrow> item \<Rightarrow> item" where
  "extract_fields env container [] item_data = item_data"
| "extract_fields env container ((field, selector) # rest) item_data =
     (if endswith field ''_container'' then extract_fields env container rest item_data
      else extract_fields env container rest
             (dict_set field (field_value env container field selector) item_data))"

text \<open>The loop \<^verbatim>\<open>for i, container in enumerate(containers)\<close>, from index \<open>i\<close> on.\<close>

fun extract_items :: "'n env \<Rightarrow> (string \<times> string) list \<Rightarrow> string \<Rightarrow> nat \<Rightarrow> 'n list \<Rightarrow> world \<Rightarrow> item list \<times> world" where
  "extract_items env sels website_name i [] w = ([], w)"
| "extract_items env sels website_name i (container # rest) w =
     (let item_data = [(''website'', PyStr website_name),
                       (''item_id'', PyInt (int i + 1)),
                       (''scraped_at'', PyStr (utcnow env (clock_reads w) @ ''Z''))];
          w1 = w\<lparr>clock_reads := clock_reads w + 1\<rparr>;
          item_data' = extract_fields env container sels item_data;
          (more, w2) = extract_items env sels website_name (i + 1) rest w1
      in (item_data' # more, w2))"

text \<open>The \<^verbatim>\<open>else\<close> branch: one record for the whole page.\<close>

definition page_record :: "'n env \<Rightarrow> 'n \<Rightarrow> string \<Rightarrow> world \<Rightarrow> item list \<times> world" where
  "page_record env soup website_name w =
     ([[(''website'', PyStr website_name),
        (''content'', PyStr (take 1000 (get_text env soup))),
        (''scraped_at'', PyStr (utcnow env (clock_reads w) @ ''Z''))]],
      w\<lparr>clock_reads := clock_reads w + 1\<rparr>)"

text \<open>
  An exception of \<^verbatim>\<open>soup.select(container_selector)\<close> is caught by the outer \<^verbatim>\<open>try\<close>,
  and the function returns the list built so far, which is empty.
\<close>

definition extract_data_from_soup :: "'n env \<Rightarrow> 'n \<Rightarrow> (string \<times> string) list \<Rightarrow> string \<Rightarrow> world \<Rightarrow> item list \<times> world" where
  "extract_data_from_soup env soup sels website_name w =
     (case container_selector sels of
        None \<Rightarrow> page_record env soup website_name w
      | Some cs \<Rightarrow>
          if cs \<noteq> [] then
            (case select env soup cs of
               Inl e \<Rightarrow> ([], w)
             | Inr containers \<Rightarrow> extract_items env sels website_name 0 containers w)
          else page_record env soup website_name w)"

section \<open>scrape_website\<close>

text \<open>
  The loop over the pages, with the accumulator \<^verbatim>\<open>all_data\<close>. A parsed page is true
  as a condition, so \<^verbatim>\<open>if soup\<close> tests for \<^verbatim>\<open>None\<close>. The test \<^verbatim>\<open>delay > 0\<close> is made
  after every page, fetched or not, and raises \<^verbatim>\<open>TypeError\<close> when the delay is not a
  number. \<^verbatim>\<open>time.sleep\<close> raises \<^verbatim>\<open>OverflowError\<close> on a number of seconds that does
  not fit its clock, which counts nanoseconds in 64 bits: \<open>sleep_limit\<close> is the largest
  whole number of seconds it takes. (The waits of \<^verbatim>\<open>get_page_content\<close> reach that limit
  only after more than four thousand million failed attempts on one page and are modelled
  without it.) An exception ends the task: the accumulator is a local variable and is lost.
\<close>

definition sleep_limit :: int where
  "sleep_limit = 9223372036"

fun scrape_pages :: "'n env \<Rightarrow> scraper_config \<Rightarrow> string \<Rightarrow> (string \<times> string) list \<Rightarrow> string \<Rightarrow> cfg_value \<Rightarrow> string list \<Rightarrow> item list \<Rightarrow> world \<Rightarrow> (exn + item list) \<times> world" where
  "scrape_pages env cfg base sels website_name dly [] all_data w = (Inr all_data, w)"
| "scrape_pages env cfg base sels website_name dly (page # rest) all_data w =
     (let full_url = urljoin env base page in
      case get_page_content env cfg full_url None w of
        (Inl e, w1) \<Rightarrow> (Inl e, w1)
      | (Inr soup, w1) \<Rightarrow>
          (let (all_data', w2) =
                 (case soup of
                    None \<Rightarrow> (all_data, w1)
                  | Some s \<Rightarrow>
                      (let (page_data, w2) = extract_data_from_soup env s sels website_name w1
                       in (all_data @ page_data, w2)))
           in case dly of
                CInt n \<Rightarrow>
                  if 0 < n
                  then (if sleep_limit < n then (Inl OverflowError, w2)
                        else scrape_pages env cfg base sels website_name dly rest all_data'
                               (emit (Sleep n) w2))
                  else scrape_pages env cfg base sels website_name dly rest all_data' w2
              | CNull \<Rightarrow> (Inl TypeError, w2)
              | CStr s \<Rightarrow> (Inl TypeError, w2)))"

definition scrape_website :: "'n env \<Rightarrow> scraper_config \<Rightarrow> string \<Rightarrow> website_config \<Rightarrow> world \<Rightarrow> (exn + item list) \<times> world" where
  "scrape_website env cfg website_name wc w =
     (if \<not> (case enabled wc of Some b \<Rightarrow> b | None \<Rightarrow> True) then (Inr [], w)
      else case base_url wc of
             None \<Rightarrow> (Inl KeyError, w)
           | Some base \<Rightarrow>
               scrape_pages env cfg base
                 (case selectors wc of Some s \<Rightarrow> s | None \<Rightarrow> [])
                 website_name
                 (case delay wc of
                    Some d \<Rightarrow> d
                  | None \<Rightarrow> (case default_delay cfg of Some d \<Rightarrow> d | None \<Rightarrow> CInt 2))
                 (case pages wc of Some ps \<Rightarrow> ps | None \<Rightarrow> [''/''])
                 [] w)"

section \<open>scrape_all_websites\<close>

text \<open>
  Every site is submitted to the pool as one task; a future holds what the task returned
  or the exception it raised. Tasks of different sites share no state of the model: the
  task of a site runs against its own outside world \<open>envs name\<close>, from \<open>world0\<close>.
  \<^verbatim>\<open>ThreadPoolExecutor\<close> refuses a pool of no workers with \<^verbatim>\<open>ValueError\<close>, before any
  task is submitted. The order in which \<^verbatim>\<open>as_completed\<close> hands the futures back is a
  parameter \<open>as_completed\<close>, a rearrangement of the list of futures.
\<close>

type_synonym future = "string \<times> (exn + item list)"

definition submit_all :: "(string \<Rightarrow> 'n env) \<Rightarrow> scraper_config \<Rightarrow> (string \<times> website_config) list \<Rightarrow> future list" where
  "submit_all envs cfg sites =
     map (\<lambda>(name, config). (name, fst (scrape_website (envs name) cfg name config world0))) sites"

text \<open>The collecting loop: \<^verbatim>\<open>future.result()\<close> either returns the data or raises.\<close>

fun collect :: "future list \<Rightarrow> scraped \<Rightarrow> scraped" where
  "collect [] all_scraped_data = all_scraped_data"
| "collect ((website_name, result) # rest) all_scraped_data =
     (case result of
        Inr data \<Rightarrow> collect rest (dict_set website_name data all_scraped_data)
      | Inl e \<Rightarrow> collect rest (dict_set website_name [] all_scraped_data))"

definition scrape_all_websites :: "(string \<Rightarrow> 'n env) \<Rightarrow> scraper_config \<Rightarrow> (future list \<Rightarrow> future list) \<Rightarrow> (string \<times> website_config) list \<Rightarrow> exn + scraped" where
  "scrape_all_websites envs cfg as_completed sites =
     (let max_workers' = (case max_workers cfg of Some m \<Rightarrow> m | None \<Rightarrow> 3) in
      if max_workers' \<le> 0 then Inl ValueError
      else Inr (collect (as_completed (submit_all envs cfg sites)) []))"

section \<open>generate_report\<close>

record site_entry =
  items_scraped :: nat
  status :: string

record report =
  timestamp :: string
  user :: string
  total_websites :: nat
  websites :: "(string \<times> site_entry) list"
  total_items :: nat

fun report_loop :: "scraped \<Rightarrow> report \<Rightarrow> report" where
  "report_loop [] rep = rep"
| "report_loop ((website_name, data) # rest) rep =
     (let item_count = length data in
      report_loop rest
        (rep\<lparr>websites := dict_set website_name
                 \<lparr>items_scraped = item_count,
                  status = (if 0 < item_count then ''success'' else ''no_data'')\<rparr>
                 (websites rep),
              total_items := total_items rep + item_count\<rparr>))"

text \<open>\<open>now\<close> is the clock reading taken when the report is built.\<close>

definition generate_report :: "string \<Rightarrow> scraped \<Rightarrow> report" where
  "generate_report now scraped_data =
     report_loop scraped_data
       \<lparr>timestamp = now @ ''Z'', user = ''CrypticLuminary'',
        total_websites = length scraped_data, websites = [], total_items = 0\<rparr>"

section \<open>Notions used to state the properties\<close>

fun is_attempt :: "event \<Rightarrow> bool" where
  "is_attempt (Attempt url k) = True"
| "is_attempt (Sleep n) = False"

text \<open>The dictionary a container starts with, after the field loop has run over it.\<close>

definition first_item :: "'n env \<Rightarrow> (string \<times> string) list \<Rightarrow> string \<Rightarrow> nat \<Rightarrow> nat \<Rightarrow> 'n \<Rightarrow> item" where
  "first_item env sels website_name i t c =
     extract_fields env c sels
       [(''website'', PyStr website_name), (''item_id'', PyInt (int i + 1)),
        (''scraped_at'', PyStr (utcnow env t @ ''Z''))]"

definition item_ids :: "item list \<Rightarrow> pyval option list" where
  "item_ids recs = map (\<lambda>r. map_of r ''item_id'') recs"

text \<open>The identifiers \<open>1, \<dots>, n\<close> in order.\<close>

definition one_to :: "nat \<Rightarrow> pyval option list" where
  "one_to n = map (\<lambda>k. Some (PyInt k)) [1..int n]"

text \<open>
  One turn of the page loop, entered in state \<open>w\<close>. \<open>page_block\<close> is what the turn adds
  to \<^verbatim>\<open>all_data\<close>: what the extractor returns for the parsed page that the fetcher
  returned for the URL of this page, and nothing when the fetcher returned \<^verbatim>\<open>None\<close>.
  \<open>page_next\<close> is the state in which a turn that does not raise leaves the task: after
  the fetch, the extraction and the delay. \<open>page_states\<close> lists the states in which the
  turns of the pages are entered, in page order.
\<close>

definition page_block :: "'n env \<Rightarrow> scraper_config \<Rightarrow> string \<Rightarrow> (string \<times> string) list \<Rightarrow> string \<Rightarrow> string \<Rightarrow> world \<Rightarrow> item list" where
  "page_block env cfg base sels website_name page w =
     (case get_page_content env cfg (urljoin env base page) None w of
        (Inr (Some s), w1) \<Rightarrow> fst (extract_data_from_soup env s sels website_name w1)
      | (Inr None, w1) \<Rightarrow> []
      | (Inl e, w1) \<Rightarrow> [])"

definition page_next :: "'n env \<Rightarrow> scraper_config \<Rightarrow> string \<Rightarrow> (string \<times> string) list \<Rightarrow> string \<Rightarrow> cfg_value \<Rightarrow> string \<Rightarrow> world \<Rightarrow> world" where
  "page_next env cfg base sels website_name dly page w =
     (let w2 = (case get_page_content env cfg (urljoin env base page) None w of
                  (Inr (Some s), w1) \<Rightarrow> snd (extract_data_from_soup env s sels website_name w1)
                | (Inr None, w1) \<Rightarrow> w1
                | (Inl e, w1) \<Rightarrow> w1)
      in case dly of
           CInt n \<Rightarrow> if 0 < n then emit (Sleep n) w2 else w2
         | CNull \<Rightarrow> w2
         | CStr s \<Rightarrow> w2)"

fun page_states :: "'n env \<Rightarrow> scraper_config \<Rightarrow> string \<Rightarrow> (string \<times> string) list \<Rightarrow> string \<Rightarrow> cfg_value \<Rightarrow> string list \<Rightarrow> world \<Rightarrow> world list" where
  "page_states env cfg base sels website_name dly [] w = []"
| "page_states env cfg base sels website_name dly (page # rest) w =
     w # page_states env cfg base sels website_name dly rest
           (page_next env cfg base sels website_name dly page w)"

text \<open>What the collecting loop stores for a future.\<close>

definition settle :: "future \<Rightarrow> string \<times> item list" where
  "settle f = (fst f, case snd f of Inr data \<Rightarrow> data | Inl e \<Rightarrow> [])"

definition entry_of :: "item list \<Rightarrow> site_entry" where
  "entry_of data =
     \<lparr>items_scraped = length data,
      status = (if 0 < length data then ''success'' else ''no_data'')\<rparr>"

section \<open>A small page model for concrete runs\<close>

text \<open>
  The theorems below hold for every selector engine. To run the functions on concrete
  input, pages are trees of named nodes, a selector is a node name that selects among
  the children, and the selector \<open>''!''\<close> is the one the engine rejects.
\<close>

datatype node = Node (node_tag: string) (node_text: string) (node_children: "node list")

definition demo_select :: "node \<Rightarrow> string \<Rightarrow> exn + node list" where
  "demo_select n sel =
     (if sel = ''!'' then Inl LibraryError
      else Inr (filter (\<lambda>c. node_tag c = sel) (node_children n)))"

definition demo_page1 :: node where
  "demo_page1 =
     Node ''html'' ''first page''
       [Node ''quote'' ''q1''
          [Node ''span'' ''To be'' [], Node ''tag'' ''life'' [],
           Node ''tag'' ''art'' [], Node ''tag'' ''wit'' []],
        Node ''quote'' ''q2'' [Node ''span'' ''Or not'' [], Node ''span'' ''to be'' []]]"

definition demo_page2 :: node where
  "demo_page2 = Node ''html'' ''second page'' [Node ''quote'' ''q3'' [Node ''span'' ''Last'' []]]"

definition demo_page5 :: node where
  "demo_page5 =
     Node ''html'' ''five''
       [Node ''quote'' ''a'' [], Node ''quote'' ''b'' [], Node ''quote'' ''c'' [],
        Node ''quote'' ''d'' [], Node ''quote'' ''e'' []]"

definition demo_env :: "node env" where
  "demo_env =
     \<lparr>http_get = (\<lambda>k url. if url = ''http://q/p1'' then Inr demo_page1
                          else if url = ''http://q/p2'' then Inr demo_page2
                          else if url = ''http://q/p5'' then Inr demo_page5
                          else Inl RequestException),
      utcnow = (\<lambda>k. ''2024-01-01T00:00:00+00:00''),
      select = demo_select,
      get_text = node_text,
      urljoin = (\<lambda>base page. base @ page)\<rparr>"

definition demo_selectors :: "(string \<times> string) list" where
  "demo_selectors =
     [(''quote_container'', ''quote''), (''text'', ''span''), (''tags'', ''tag''), (''author'', ''!'')]"

definition demo_cfg :: scraper_config where
  "demo_cfg = \<lparr>max_workers = None, default_delay = None, retries = Some 2\<rparr>"

definition demo_books :: website_config where
  "demo_books = \<lparr>enabled = None, base_url = Some ''http://q'', pages = Some [''/p1'', ''/p2''],
                 selectors = Some demo_selectors, delay = Some (CInt 0)\<rparr>"

definition demo_flaky :: website_config where
  "demo_flaky = \<lparr>enabled = Some True, base_url = Some ''http://q'', pages = Some [''/p1'', ''/p2''],
                 selectors = Some demo_selectors, delay = Some CNull\<rparr>"

definition demo_steady :: website_config where
  "demo_steady = \<lparr>enabled = Some True, base_url = Some ''http://q'', pages = Some [''/p5''],
                  selectors = Some demo_selectors, delay = Some (CInt 0)\<rparr>"

definition demo_off :: website_config where
  "demo_off = \<lparr>enabled = Some False, base_url = Some ''http://q'', pages = Some [''/p1''],
               selectors = Some demo_selectors, delay = None\<rparr>"

text \<open>
  A crawl of two sites against the same pages: the task of \<open>flaky\<close> extracts the first
  page and then fails on its delay, which is not a number; the futures complete in the
  reverse of the order of submission.
\<close>

definition demo_envs :: "string \<Rightarrow> node env" where
  "demo_envs name = demo_env"

definition demo_sites :: "(string \<times> website_config) list" where
  "demo_sites = [(''flaky'', demo_flaky), (''steady'', demo_steady)]"

definition demo_broken :: "(string \<times> website_config) list" where
  "demo_broken = [(''nobase'', demo_books\<lparr>base_url := None\<rparr>), (''flaky'', demo_flaky)]"

section \<open>Dictionaries\<close>

lemma map_of_dict_set: "map_of (dict_set k v d) = (map_of d)(k \<mapsto> v)"
  by (induction d) (auto simp: fun_eq_iff)

lemma dict_set_append: "k \<notin> fst ` set d \<Longrightarrow> dict_set k v d = d @ [(k, v)]"
  by (induction d) auto

section \<open>Properties of the fetcher\<close>

text \<open>
  Whatever the network answers, a call adds events to the trace, among them at most one
  attempt for each index of the loop, and counts each of them as a request.
\<close>

lemma fetch_attempts_trace:
  "\<exists>new. trace (snd (fetch_attempts env url r xs w)) = trace w @ new
        \<and> length (filter is_attempt new) \<le> length xs
        \<and> requests (snd (fetch_attempts env url r xs w)) = requests w + length (filter is_attempt new)"
proof (induction xs arbitrary: w)
  case Nil
  show ?case by simp
next
  case (Cons a xs)
  let ?w1 = "emit (Attempt url (a + 1)) (w\<lparr>requests := requests w + 1\<rparr>)"
  let ?w2 = "emit (Sleep ((int a + 1) * 2)) ?w1"
  from Cons.IH [of ?w2] obtain new where
    n: "trace (snd (fetch_attempts env url r xs ?w2)) = trace ?w2 @ new"
       "length (filter is_attempt new) \<le> length xs"
       "requests (snd (fetch_attempts env url r xs ?w2)) = requests ?w2 + length (filter is_attempt new)"
    by blast
  show ?case
  proof (cases "http_get env (requests w) url")
    case (Inr soup)
    then show ?thesis
      by (intro exI [of _ "[Attempt url (a + 1)]"]) (simp add: emit_def)
  next
    case (Inl e)
    show ?thesis
    proof (cases "e = RequestException \<and> int a < r")
      case True
      with Inl n show ?thesis
        by (intro exI [of _ "[Attempt url (a + 1), Sleep ((int a + 1) * 2)] @ new"])
           (simp add: emit_def Let_def)
    next
      case False
      with Inl show ?thesis
        by (intro exI [of _ "[Attempt url (a + 1)]"]) (auto simp add: emit_def Let_def)
    qed
  qed
qed

lemma fetch_attempts_bound:
  "length (filter is_attempt (drop (length (trace w)) (trace (snd (fetch_attempts env url r xs w)))))
     \<le> length xs"
proof -
  from fetch_attempts_trace [of env url r xs w] obtain new where
    "trace (snd (fetch_attempts env url r xs w)) = trace w @ new"
    "length (filter is_attempt new) \<le> length xs"
    by blast
  then show ?thesis by simp
qed

text \<open>
  When every request fails with \<^verbatim>\<open>RequestException\<close>, the loop from attempt index \<open>i\<close>
  to the last index \<open>m\<close> alternates attempts and waits and ends with an attempt.
\<close>

lemma fetch_all_fail:
  assumes "\<forall>k < Suc m - i. http_get env (requests w + k) url = Inl RequestException"
    and "i \<le> m"
  shows "fetch_attempts env url (int m) [i..<Suc m] w =
           (Inr None,
            w\<lparr>requests := requests w + (Suc m - i),
              trace := trace w @ concat (map (\<lambda>k. [Attempt url k, Sleep (int k * 2)]) [Suc i..<Suc m])
                         @ [Attempt url (Suc m)]\<rparr>)"
  using assms
proof (induction "m - i" arbitrary: i w)
  case 0
  then have "i = m" by simp
  with 0 show ?case by (simp add: emit_def)
next
  case (Suc d)
  then have lt: "i < m" by simp
  have l: "[i..<Suc m] = i # [Suc i..<Suc m]" using lt by (simp add: upt_conv_Cons)
  have h0: "http_get env (requests w) url = Inl RequestException"
    using Suc.prems(1) lt by (metis add.right_neutral zero_less_diff less_Suc_eq)
  let ?w1 = "emit (Sleep ((int i + 1) * 2)) (emit (Attempt url (i + 1)) (w\<lparr>requests := requests w + 1\<rparr>))"
  have ih: "fetch_attempts env url (int m) [Suc i..<Suc m] ?w1 =
           (Inr None,
            ?w1\<lparr>requests := requests ?w1 + (Suc m - Suc i),
              trace := trace ?w1 @ concat (map (\<lambda>k. [Attempt url k, Sleep (int k * 2)]) [Suc (Suc i)..<Suc m])
                         @ [Attempt url (Suc m)]\<rparr>)"
  proof (rule Suc.hyps(1))
    show "d = m - Suc i" using Suc.hyps(2) by simp
    show "\<forall>k<Suc m - Suc i. http_get env (requests ?w1 + k) url = Inl RequestException"
    proof (intro allI impI)
      fix k assume "k < Suc m - Suc i"
      then have "Suc k < Suc m - i" using lt by simp
      then have "http_get env (requests w + Suc k) url = Inl RequestException"
        using Suc.prems(1) by blast
      then show "http_get env (requests ?w1 + k) url = Inl RequestException"
        by (simp add: emit_def)
    qed
    show "Suc i \<le> m" using lt by simp
  qed
  have u: "[Suc i..<Suc m] = Suc i # [Suc (Suc i)..<Suc m]" using lt by (simp add: upt_conv_Cons)
  show ?case
    using lt h0 ih by (simp add: l u emit_def algebra_simps del: upt_Suc)
qed

section \<open>Claims about the fetcher and the site task\<close>

text \<open>
  C3. For a retry count \<open>r \<ge> 0\<close>, given as the argument or taken from the configuration, a
  call of \<^verbatim>\<open>get_page_content\<close> makes at most \<open>r + 1\<close> request attempts. When each of the
  next \<open>r + 1\<close> requests fails with a request exception, the call returns \<^verbatim>\<open>None\<close> (it does
  not raise) after exactly \<open>r + 1\<close> attempts: attempt \<open>k\<close> is followed by a wait of \<open>k * 2\<close>
  seconds for \<open>k = 1, \<dots>, r\<close>, and attempt \<open>r + 1\<close> is the last event, with no wait after it.
\<close>

theorem fetcher_retry_backoff:
  assumes "0 \<le> r"
    and "retries_arg = Some r \<or> (retries_arg = None \<and> retries cfg = Some r)"
  shows "int (length (filter is_attempt
                (drop (length (trace w)) (trace (snd (get_page_content env cfg url retries_arg w))))))
           \<le> r + 1
       \<and> ((\<forall>k < nat r + 1. http_get env (requests w + k) url = Inl RequestException) \<longrightarrow>
            get_page_content env cfg url retries_arg w =
              (Inr None,
               w\<lparr>requests := requests w + (nat r + 1),
                 trace := trace w
                    @ concat (map (\<lambda>k. [Attempt url k, Sleep (int k * 2)]) [1..<Suc (nat r)])
                    @ [Attempt url (nat r + 1)]\<rparr>))"
proof -
  have g: "get_page_content env cfg url retries_arg w
             = fetch_attempts env url (int (nat r)) [0..<Suc (nat r)] w"
    using assms by (auto simp: get_page_content_def nat_add_distrib)
  have bound: "length (filter is_attempt
                 (drop (length (trace w)) (trace (snd (get_page_content env cfg url retries_arg w)))))
                \<le> nat r + 1"
    using fetch_attempts_bound [of w env url "int (nat r)" "[0..<Suc (nat r)]"] by (simp add: g)
  have fail: "get_page_content env cfg url retries_arg w =
              (Inr None,
               w\<lparr>requests := requests w + (nat r + 1),
                 trace := trace w
                    @ concat (map (\<lambda>k. [Attempt url k, Sleep (int k * 2)]) [1..<Suc (nat r)])
                    @ [Attempt url (nat r + 1)]\<rparr>)"
    if "\<forall>k < nat r + 1. http_get env (requests w + k) url = Inl RequestException"
    using fetch_all_fail [of "nat r" 0 env w url] that by (simp add: g)
  from bound assms(1) have "int (length (filter is_attempt
                (drop (length (trace w)) (trace (snd (get_page_content env cfg url retries_arg w))))))
           \<le> r + 1"
    by linarith
  with fail show ?thesis by blast
qed

text \<open>
  With \<^verbatim>\<open>retries=2\<close> and an endpoint that always fails: three attempts, waits of 2 and 4
  seconds, and \<^verbatim>\<open>None\<close>.
\<close>

theorem fetcher_retry_backoff_witness:
  "(0::int) \<le> 2
   \<and> http_get demo_env (requests world0 + 0) ''http://q/gone'' = Inl RequestException
   \<and> http_get demo_env (requests world0 + 1) ''http://q/gone'' = Inl RequestException
   \<and> http_get demo_env (requests world0 + 2) ''http://q/gone'' = Inl RequestException
   \<and> get_page_content demo_env demo_cfg ''http://q/gone'' (Some 2) world0 =
       (Inr None,
        \<lparr>requests = 3, clock_reads = 0,
         trace = [Attempt ''http://q/gone'' 1, Sleep 2, Attempt ''http://q/gone'' 2, Sleep 4,
                  Attempt ''http://q/gone'' 3]\<rparr>)
   \<and> length (filter is_attempt
        (drop (length (trace world0))
           (trace (snd (get_page_content demo_env demo_cfg ''http://q/gone'' (Some 2) world0))))) \<le> 3"
proof -
  have fails: "\<forall>k < nat 2 + 1. http_get demo_env (requests world0 + k) ''http://q/gone'' = Inl RequestException"
    by (simp add: demo_env_def)
  from fetcher_retry_backoff [of 2 "Some 2" demo_cfg world0 demo_env "''http://q/gone''"] fails
  show ?thesis
    by (simp add: world0_def upt_conv_Cons demo_env_def)
qed

text \<open>
  C8. A site whose \<^verbatim>\<open>enabled\<close> flag is false returns the empty list at once: the state
  of the task is unchanged, so no request attempt (and no other event) has happened.
\<close>

theorem disabled_site_skipped:
  assumes "enabled wc = Some False"
  shows "scrape_website env cfg website_name wc w = (Inr [], w)"
  using assms by (simp add: scrape_website_def)

theorem disabled_site_skipped_witness:
  "enabled demo_off = Some False
   \<and> scrape_website demo_env demo_cfg ''off'' demo_off world0 = (Inr [], world0)
   \<and> requests world0 = 0 \<and> trace world0 = []"
  using disabled_site_skipped [of demo_off demo_env demo_cfg "''off''" world0]
  by (simp add: demo_off_def world0_def)

section \<open>Properties of the extractor\<close>

text \<open>The field loop leaves alone every key that it does not extract.\<close>

lemma extract_fields_other:
  "k \<notin> fst ` set sels \<Longrightarrow> map_of (extract_fields env c sels it) k = map_of it k"
  by (induction sels arbitrary: it) (auto simp: map_of_dict_set)

lemma extract_fields_skipped:
  "endswith k ''_container'' \<Longrightarrow> map_of (extract_fields env c sels it) k = map_of it k"
  by (induction sels arbitrary: it) (auto simp: map_of_dict_set)

lemma extract_fields_keeps:
  "map_of it k \<noteq> None \<Longrightarrow> map_of (extract_fields env c sels it) k \<noteq> None"
  by (induction sels arbitrary: it) (auto simp: map_of_dict_set)

text \<open>A field that is extracted holds the value of its own selector.\<close>

lemma extract_fields_value:
  "distinct (map fst sels) \<Longrightarrow> (f, s) \<in> set sels \<Longrightarrow> \<not> endswith f ''_container'' \<Longrightarrow>
   map_of (extract_fields env c sels it) f = Some (field_value env c f s)"
proof (induction sels arbitrary: it)
  case Nil
  then show ?case by simp
next
  case (Cons p sels)
  obtain f' s' where p: "p = (f', s')" by (cases p)
  show ?case
  proof (cases "f' = f")
    case True
    with Cons.prems p have "s' = s" and "f \<notin> fst ` set sels"
      by (auto simp: image_iff)
    with True p Cons.prems(3) show ?thesis
      by (simp add: extract_fields_other map_of_dict_set)
  next
    case False
    with Cons p show ?thesis by auto
  qed
qed

lemma extract_items_world:
  "snd (extract_items env sels website_name i cs w) = w\<lparr>clock_reads := clock_reads w + length cs\<rparr>"
  by (induction cs arbitrary: i w) (simp_all add: Let_def case_prod_unfold)

lemma extract_items_length:
  "length (fst (extract_items env sels website_name i cs w)) = length cs"
  by (induction cs arbitrary: i w) (simp_all add: Let_def case_prod_unfold)

lemma extract_items_nth:
  "j < length cs \<Longrightarrow>
   fst (extract_items env sels website_name i cs w) ! j =
     first_item env sels website_name (i + j) (clock_reads w + j) (cs ! j)"
proof (induction cs arbitrary: i w j)
  case Nil
  then show ?case by simp
next
  case (Cons c cs)
  show ?case
  proof (cases j)
    case 0
    then show ?thesis by (simp add: Let_def case_prod_unfold first_item_def)
  next
    case (Suc j')
    with Cons.prems have "j' < length cs" by simp
    from Cons.IH [OF this, of "i + 1" "w\<lparr>clock_reads := clock_reads w + 1\<rparr>"] Suc
    show ?thesis by (simp add: Let_def case_prod_unfold)
  qed
qed

lemma container_path:
  "container_selector sels = Some cs \<Longrightarrow> cs \<noteq> [] \<Longrightarrow> select env soup cs = Inr containers \<Longrightarrow>
   extract_data_from_soup env soup sels website_name w
     = extract_items env sels website_name 0 containers w"
  by (simp add: extract_data_from_soup_def)

lemma whole_page_path:
  "\<not> truthy (container_selector sels) \<Longrightarrow>
   extract_data_from_soup env soup sels website_name w = page_record env soup website_name w"
  by (auto simp: extract_data_from_soup_def truthy_def split: option.splits)

lemma not_container_names:
  "\<not> endswith ''website'' ''_container''"
  "\<not> endswith ''item_id'' ''_container''"
  "\<not> endswith ''scraped_at'' ''_container''"
  "\<not> endswith ''content'' ''_container''"
  by (simp_all add: endswith_def)

lemma first_item_field:
  "distinct (map fst sels) \<Longrightarrow> (f, s) \<in> set sels \<Longrightarrow> \<not> endswith f ''_container'' \<Longrightarrow>
   map_of (first_item env sels website_name i t c) f = Some (field_value env c f s)"
  by (simp add: first_item_def extract_fields_value)

lemma first_item_no_container_key:
  "endswith f ''_container'' \<Longrightarrow> map_of (first_item env sels website_name i t c) f = None"
  using not_container_names by (auto simp: first_item_def extract_fields_skipped)

lemma first_item_id:
  "''item_id'' \<notin> fst ` set sels \<Longrightarrow>
   map_of (first_item env sels website_name i t c) ''item_id'' = Some (PyInt (int i + 1))"
  by (simp add: first_item_def extract_fields_other)

lemma first_item_website:
  "''website'' \<notin> fst ` set sels \<Longrightarrow>
   map_of (first_item env sels website_name i t c) ''website'' = Some (PyStr website_name)"
  by (simp add: first_item_def extract_fields_other)

lemma first_item_scraped_at:
  "''scraped_at'' \<notin> fst ` set sels \<Longrightarrow>
   map_of (first_item env sels website_name i t c) ''scraped_at'' = Some (PyStr (utcnow env t @ ''Z''))"
  by (simp add: first_item_def extract_fields_other)

lemma first_item_keys:
  "map_of (first_item env sels website_name i t c) ''website'' \<noteq> None"
  "map_of (first_item env sels website_name i t c) ''item_id'' \<noteq> None"
  "map_of (first_item env sels website_name i t c) ''scraped_at'' \<noteq> None"
  by (simp_all add: first_item_def extract_fields_keeps)

section \<open>Claims about the extractor\<close>

text \<open>
  C6. On the container path, take container \<open>j\<close> and an extracted field (one whose name does
  not end in \<^verbatim>\<open>_container\<close>). When its selector matches no element, or the engine raises
  on it, the record of that container holds \<^verbatim>\<open>None\<close> under the field: the key is present
  and the value is not the empty string. The item is not dropped (there is one record for
  each container) and every extracted field of the same item holds the value of its own
  selector, whatever happened to the others.
\<close>

theorem field_without_match_is_none:
  assumes "distinct (map fst sels)"
    and "container_selector sels = Some cs" and "cs \<noteq> []"
    and "select env soup cs = Inr containers"
    and "j < length containers"
    and "(field, selector) \<in> set sels" and "\<not> endswith field ''_container''"
    and "select env (containers ! j) selector = Inr []
         \<or> (\<exists>e. select env (containers ! j) selector = Inl e)"
  shows "length (fst (extract_data_from_soup env soup sels website_name w)) = length containers
       \<and> map_of (fst (extract_data_from_soup env soup sels website_name w) ! j) field = Some PyNone
       \<and> map_of (fst (extract_data_from_soup env soup sels website_name w) ! j) field \<noteq> None
       \<and> map_of (fst (extract_data_from_soup env soup sels website_name w) ! j) field \<noteq> Some (PyStr [])
       \<and> (\<forall>f s. (f, s) \<in> set sels \<and> \<not> endswith f ''_container'' \<longrightarrow>
             map_of (fst (extract_data_from_soup env soup sels website_name w) ! j) f
               = Some (field_value env (containers ! j) f s))"
proof -
  let ?recs = "fst (extract_data_from_soup env soup sels website_name w)"
  have recs: "?recs = fst (extract_items env sels website_name 0 containers w)"
    using assms(2-4) by (simp add: container_path)
  have len: "length ?recs = length containers"
    by (simp add: recs extract_items_length)
  have each: "map_of (?recs ! j) f = Some (field_value env (containers ! j) f s)"
    if "(f, s) \<in> set sels" and "\<not> endswith f ''_container''" for f s
    using that assms(1,5) by (simp add: recs extract_items_nth first_item_field)
  have "field_value env (containers ! j) field selector = PyNone"
    using assms(8) by (auto simp: field_value_def)
  with each [OF assms(6,7)] have none: "map_of (?recs ! j) field = Some PyNone"
    by simp
  from len none each show ?thesis by simp
qed

theorem field_without_match_is_none_witness:
  "length (fst (extract_data_from_soup demo_env demo_page1 demo_selectors ''books'' world0)) = 2
   \<and> select demo_env (node_children demo_page1 ! 1) ''tag'' = Inr []
   \<and> map_of (fst (extract_data_from_soup demo_env demo_page1 demo_selectors ''books'' world0) ! 1)
        ''tags'' = Some PyNone
   \<and> map_of (fst (extract_data_from_soup demo_env demo_page1 demo_selectors ''books'' world0) ! 1)
        ''text'' = Some (PyStr ''Or not'')
   \<and> select demo_env (node_children demo_page1 ! 1) ''!'' = Inl LibraryError
   \<and> map_of (fst (extract_data_from_soup demo_env demo_page1 demo_selectors ''books'' world0) ! 1)
        ''author'' = Some PyNone"
proof -
  have d: "distinct (map fst demo_selectors)"
    by (simp add: demo_selectors_def)
  have cs: "container_selector demo_selectors = Some ''quote''"
    by (simp add: container_selector_def py_or_def truthy_def demo_selectors_def)
  have sel: "select demo_env demo_page1 ''quote'' = Inr (node_children demo_page1)"
    by (simp add: demo_env_def demo_select_def demo_page1_def)
  have j: "1 < length (node_children demo_page1)"
    by (simp add: demo_page1_def)
  have f: "(''tags'', ''tag'') \<in> set demo_selectors" "(''text'', ''span'') \<in> set demo_selectors"
    "(''author'', ''!'') \<in> set demo_selectors"
    by (simp_all add: demo_selectors_def)
  have n: "\<not> endswith ''tags'' ''_container''" "\<not> endswith ''text'' ''_container''"
    "\<not> endswith ''author'' ''_container''"
    by (simp_all add: endswith_def)
  have x: "select demo_env (node_children demo_page1 ! 1) ''!'' = Inl LibraryError"
    by (simp add: demo_env_def demo_select_def)
  then have raised: "select demo_env (node_children demo_page1 ! 1) ''!'' = Inr []
      \<or> (\<exists>e. select demo_env (node_children demo_page1 ! 1) ''!'' = Inl e)"
    by blast
  have z: "select demo_env (node_children demo_page1 ! 1) ''tag'' = Inr []"
    by (simp add: demo_env_def demo_select_def demo_page1_def)
  have v: "field_value demo_env (node_children demo_page1 ! 1) ''text'' ''span'' = PyStr ''Or not''"
    by (simp add: field_value_def demo_env_def demo_select_def demo_page1_def)
  from field_without_match_is_none [OF d cs _ sel j f(1) n(1) disjI1 [OF z], of "''books''" world0]
    field_without_match_is_none [OF d cs _ sel j f(3) n(3) raised, of "''books''" world0]
    f(2) n(2) v z x
  show ?thesis
    by (auto simp: demo_page1_def)
qed

text \<open>
  C7. On the container path, an extracted field whose selector matches at least one
  element holds, when it is named exactly \<^verbatim>\<open>tags\<close>, the list of the texts of all matched
  elements in the order the engine returns them, and otherwise the text of the first
  matched element only.
\<close>

theorem tags_all_matches_others_first:
  assumes "distinct (map fst sels)"
    and "container_selector sels = Some cs" and "cs \<noteq> []"
    and "select env soup cs = Inr containers"
    and "j < length containers"
    and "(field, selector) \<in> set sels" and "\<not> endswith field ''_container''"
    and "select env (containers ! j) selector = Inr (e # es)"
  shows "map_of (fst (extract_data_from_soup env soup sels website_name w) ! j) field
           = Some (if field = ''tags'' then PyList (map (get_text env) (e # es))
                   else PyStr (get_text env e))"
proof -
  have "fst (extract_data_from_soup env soup sels website_name w) ! j
          = first_item env sels website_name j (clock_reads w + j) (containers ! j)"
    using assms(2-5) by (simp add: container_path extract_items_nth)
  moreover have "field_value env (containers ! j) field selector
          = (if field = ''tags'' then PyList (map (get_text env) (e # es))
             else PyStr (get_text env e))"
    using assms(8) by (simp add: field_value_def)
  ultimately show ?thesis
    using assms(1,6,7) by (simp add: first_item_field)
qed

theorem tags_all_matches_others_first_witness:
  "select demo_env (node_children demo_page1 ! 0) ''tag''
     = Inr [Node ''tag'' ''life'' [], Node ''tag'' ''art'' [], Node ''tag'' ''wit'' []]
   \<and> map_of (fst (extract_data_from_soup demo_env demo_page1 demo_selectors ''books'' world0) ! 0)
        ''tags'' = Some (PyList [''life'', ''art'', ''wit''])
   \<and> select demo_env (node_children demo_page1 ! 1) ''span''
        = Inr [Node ''span'' ''Or not'' [], Node ''span'' ''to be'' []]
   \<and> map_of (fst (extract_data_from_soup demo_env demo_page1 demo_selectors ''books'' world0) ! 1)
        ''text'' = Some (PyStr ''Or not'')"
proof -
  have d: "distinct (map fst demo_selectors)"
    by (simp add: demo_selectors_def)
  have cs: "container_selector demo_selectors = Some ''quote''"
    by (simp add: container_selector_def py_or_def truthy_def demo_selectors_def)
  have sel: "select demo_env demo_page1 ''quote'' = Inr (node_children demo_page1)"
    by (simp add: demo_env_def demo_select_def demo_page1_def)
  have j: "0 < length (node_children demo_page1)" "1 < length (node_children demo_page1)"
    by (simp_all add: demo_page1_def)
  have f: "(''tags'', ''tag'') \<in> set demo_selectors" "(''text'', ''span'') \<in> set demo_selectors"
    by (simp_all add: demo_selectors_def)
  have n: "\<not> endswith ''tags'' ''_container''" "\<not> endswith ''text'' ''_container''"
    by (simp_all add: endswith_def)
  have m0: "select demo_env (node_children demo_page1 ! 0) ''tag''
     = Inr (Node ''tag'' ''life'' [] # [Node ''tag'' ''art'' [], Node ''tag'' ''wit'' []])"
    by (simp add: demo_env_def demo_select_def demo_page1_def)
  have m1: "select demo_env (node_children demo_page1 ! 1) ''span''
     = Inr (Node ''span'' ''Or not'' [] # [Node ''span'' ''to be'' []])"
    by (simp add: demo_env_def demo_select_def demo_page1_def)
  have t: "get_text demo_env = node_text"
    by (simp add: demo_env_def)
  from tags_all_matches_others_first [OF d cs _ sel j(1) f(1) n(1) m0, of "''books''" world0]
       tags_all_matches_others_first [OF d cs _ sel j(2) f(2) n(2) m1, of "''books''" world0]
       m0 m1
  show ?thesis
    by (simp add: t)
qed

text \<open>
  C10. The container path is taken only when the selector map has one of the keys
  \<^verbatim>\<open>quote_container\<close>, \<^verbatim>\<open>book_container\<close>, \<^verbatim>\<open>data_container\<close>. A map with none of
  these keys gives the single whole-page record, whose content is the first 1000 characters
  of the page text at most. No record has a key whose name ends in \<^verbatim>\<open>_container\<close>: such
  fields are left out of the field loop.
\<close>

theorem container_keys_decide_path:
  shows "(truthy (container_selector sels) \<longrightarrow>
            map_of sels ''quote_container'' \<noteq> None \<or> map_of sels ''book_container'' \<noteq> None
            \<or> map_of sels ''data_container'' \<noteq> None)
       \<and> (map_of sels ''quote_container'' = None \<and> map_of sels ''book_container'' = None
            \<and> map_of sels ''data_container'' = None \<longrightarrow>
            fst (extract_data_from_soup env soup sels website_name w)
              = [[(''website'', PyStr website_name),
                  (''content'', PyStr (take 1000 (get_text env soup))),
                  (''scraped_at'', PyStr (utcnow env (clock_reads w) @ ''Z''))]]
            \<and> length (take 1000 (get_text env soup)) \<le> 1000)
       \<and> (\<forall>r \<in> set (fst (extract_data_from_soup env soup sels website_name w)).
             \<forall>f. endswith f ''_container'' \<longrightarrow> map_of r f = None)"
proof (intro conjI impI ballI allI)
  assume "truthy (container_selector sels)"
  then show "map_of sels ''quote_container'' \<noteq> None \<or> map_of sels ''book_container'' \<noteq> None
            \<or> map_of sels ''data_container'' \<noteq> None"
    by (auto simp: container_selector_def py_or_def truthy_def split: if_splits)
next
  assume none: "map_of sels ''quote_container'' = None \<and> map_of sels ''book_container'' = None
            \<and> map_of sels ''data_container'' = None"
  then have "\<not> truthy (container_selector sels)"
    by (simp add: container_selector_def py_or_def truthy_def)
  then show "fst (extract_data_from_soup env soup sels website_name w)
              = [[(''website'', PyStr website_name),
                  (''content'', PyStr (take 1000 (get_text env soup))),
                  (''scraped_at'', PyStr (utcnow env (clock_reads w) @ ''Z''))]]"
    by (simp add: whole_page_path page_record_def)
next
  show "length (take 1000 (get_text env soup)) \<le> 1000" by simp
next
  fix r f
  assume r: "r \<in> set (fst (extract_data_from_soup env soup sels website_name w))"
    and f: "endswith f ''_container''"
  show "map_of r f = None"
  proof (cases "truthy (container_selector sels)")
    case False
    with r have "r = [(''website'', PyStr website_name),
                  (''content'', PyStr (take 1000 (get_text env soup))),
                  (''scraped_at'', PyStr (utcnow env (clock_reads w) @ ''Z''))]"
      by (simp add: whole_page_path page_record_def)
    with f not_container_names show ?thesis by auto
  next
    case True
    then obtain cs where cs: "container_selector sels = Some cs" "cs \<noteq> []"
      by (auto simp: truthy_def split: option.splits)
    show ?thesis
    proof (cases "select env soup cs")
      case (Inl e)
      with cs r show ?thesis by (simp add: extract_data_from_soup_def)
    next
      case (Inr containers)
      with cs r have "r \<in> set (fst (extract_items env sels website_name 0 containers w))"
        by (simp add: container_path)
      then obtain j where "j < length containers"
        "r = fst (extract_items env sels website_name 0 containers w) ! j"
        by (auto simp: in_set_conv_nth extract_items_length)
      with f show ?thesis
        by (simp add: extract_items_nth first_item_no_container_key)
    qed
  qed
qed

text \<open>
  A map whose only container-like key is \<^verbatim>\<open>item_container\<close> gives the whole-page record;
  with the key \<^verbatim>\<open>quote_container\<close> the records have no such key.
\<close>

theorem container_keys_decide_path_witness:
  "\<not> truthy (container_selector [(''item_container'', ''quote''), (''text'', ''span'')])
   \<and> fst (extract_data_from_soup demo_env demo_page1
            [(''item_container'', ''quote''), (''text'', ''span'')] ''books'' world0)
       = [[(''website'', PyStr ''books''), (''content'', PyStr ''first page''),
           (''scraped_at'', PyStr ''2024-01-01T00:00:00+00:00Z'')]]
   \<and> truthy (container_selector demo_selectors)
   \<and> map_of demo_selectors ''quote_container'' = Some ''quote''
   \<and> map_of (hd (fst (extract_data_from_soup demo_env demo_page1 demo_selectors ''books'' world0)))
        ''quote_container'' = None"
proof -
  let ?plain = "[(''item_container'', ''quote''), (''text'', ''span'')]"
  have k: "map_of ?plain ''quote_container'' = None \<and> map_of ?plain ''book_container'' = None
            \<and> map_of ?plain ''data_container'' = None"
    by simp
  have t: "truthy (container_selector demo_selectors)"
    by (simp add: container_selector_def py_or_def truthy_def demo_selectors_def)
  have e: "endswith ''quote_container'' ''_container''"
    by (simp add: endswith_def)
  have h: "hd (fst (extract_data_from_soup demo_env demo_page1 demo_selectors ''books'' world0))
             \<in> set (fst (extract_data_from_soup demo_env demo_page1 demo_selectors ''books'' world0))"
    by (simp add: extract_data_from_soup_def container_selector_def py_or_def truthy_def
          demo_selectors_def demo_env_def demo_select_def demo_page1_def Let_def)
  from container_keys_decide_path [of ?plain demo_env demo_page1 "''books''" world0] k
  have a: "\<not> truthy (container_selector ?plain)
      \<and> fst (extract_data_from_soup demo_env demo_page1 ?plain ''books'' world0)
       = [[(''website'', PyStr ''books''), (''content'', PyStr ''first page''),
           (''scraped_at'', PyStr ''2024-01-01T00:00:00+00:00Z'')]]"
    by (auto simp: demo_env_def demo_page1_def world0_def)
  from container_keys_decide_path [of demo_selectors demo_env demo_page1 "''books''" world0] h e
  have b: "map_of (hd (fst (extract_data_from_soup demo_env demo_page1 demo_selectors ''books'' world0)))
        ''quote_container'' = None"
    by blast
  from a b t show ?thesis
    by (simp add: demo_selectors_def)
qed

text \<open>
  C9, as the code has it. On the container path every record has the keys \<^verbatim>\<open>website\<close>,
  \<^verbatim>\<open>item_id\<close> and \<^verbatim>\<open>scraped_at\<close>; unless a selector field of the same name overwrites
  them, they hold the site name, the position of the container on its page counted from 1,
  and the clock reading followed by \<^verbatim>\<open>Z\<close>. The whole-page record has \<^verbatim>\<open>website\<close> and
  \<^verbatim>\<open>scraped_at\<close> and no \<^verbatim>\<open>item_id\<close>.
\<close>

theorem provenance_of_records:
  shows "(\<forall>cs containers j.
            container_selector sels = Some cs \<and> cs \<noteq> [] \<and> select env soup cs = Inr containers
            \<and> j < length containers \<longrightarrow>
              length (fst (extract_data_from_soup env soup sels website_name w)) = length containers
            \<and> map_of (fst (extract_data_from_soup env soup sels website_name w) ! j) ''website'' \<noteq> None
            \<and> map_of (fst (extract_data_from_soup env soup sels website_name w) ! j) ''item_id'' \<noteq> None
            \<and> map_of (fst (extract_data_from_soup env soup sels website_name w) ! j) ''scraped_at'' \<noteq> None
            \<and> (''website'' \<notin> fst ` set sels \<longrightarrow>
                 map_of (fst (extract_data_from_soup env soup sels website_name w) ! j) ''website''
                   = Some (PyStr website_name))
            \<and> (''item_id'' \<notin> fst ` set sels \<longrightarrow>
                 map_of (fst (extract_data_from_soup env soup sels website_name w) ! j) ''item_id''
                   = Some (PyInt (int j + 1)))
            \<and> (''scraped_at'' \<notin> fst ` set sels \<longrightarrow>
                 map_of (fst (extract_data_from_soup env soup sels website_name w) ! j) ''scraped_at''
                   = Some (PyStr (utcnow env (clock_reads w + j) @ ''Z''))))
       \<and> (\<not> truthy (container_selector sels) \<longrightarrow>
            (\<exists>r. fst (extract_data_from_soup env soup sels website_name w) = [r]
                \<and> map_of r ''website'' = Some (PyStr website_name)
                \<and> map_of r ''scraped_at'' = Some (PyStr (utcnow env (clock_reads w) @ ''Z''))
                \<and> map_of r ''item_id'' = None))"
proof -
  let ?recs = "fst (extract_data_from_soup env soup sels website_name w)"
  have container: "length ?recs = length containers
            \<and> map_of (?recs ! j) ''website'' \<noteq> None
            \<and> map_of (?recs ! j) ''item_id'' \<noteq> None
            \<and> map_of (?recs ! j) ''scraped_at'' \<noteq> None
            \<and> (''website'' \<notin> fst ` set sels \<longrightarrow>
                 map_of (?recs ! j) ''website'' = Some (PyStr website_name))
            \<and> (''item_id'' \<notin> fst ` set sels \<longrightarrow>
                 map_of (?recs ! j) ''item_id'' = Some (PyInt (int j + 1)))
            \<and> (''scraped_at'' \<notin> fst ` set sels \<longrightarrow>
                 map_of (?recs ! j) ''scraped_at''
                   = Some (PyStr (utcnow env (clock_reads w + j) @ ''Z'')))"
    if a: "container_selector sels = Some cs \<and> cs \<noteq> [] \<and> select env soup cs = Inr containers
            \<and> j < length containers"
    for cs containers j
  proof -
    have recs: "?recs = fst (extract_items env sels website_name 0 containers w)"
      using a by (simp add: container_path)
    have nth: "?recs ! j = first_item env sels website_name j (clock_reads w + j) (containers ! j)"
      using a by (simp add: recs extract_items_nth)
    have len: "length ?recs = length containers"
      by (simp add: recs extract_items_length)
    show ?thesis
      unfolding nth len
      using first_item_keys [of env sels website_name j "clock_reads w + j" "containers ! j"]
      by (simp add: first_item_website first_item_id first_item_scraped_at)
  qed
  have page: "\<exists>r. ?recs = [r]
                \<and> map_of r ''website'' = Some (PyStr website_name)
                \<and> map_of r ''scraped_at'' = Some (PyStr (utcnow env (clock_reads w) @ ''Z''))
                \<and> map_of r ''item_id'' = None"
    if "\<not> truthy (container_selector sels)"
    using that by (simp add: whole_page_path page_record_def)
  from container page show ?thesis by blast
qed

theorem provenance_of_records_witness:
  "map_of (fst (extract_data_from_soup demo_env demo_page1 demo_selectors ''books'' world0) ! 1)
      ''item_id'' = Some (PyInt 2)
   \<and> map_of (fst (extract_data_from_soup demo_env demo_page1 demo_selectors ''books'' world0) ! 1)
      ''website'' = Some (PyStr ''books'')
   \<and> map_of (fst (extract_data_from_soup demo_env demo_page1 demo_selectors ''books'' world0) ! 1)
      ''scraped_at'' = Some (PyStr ''2024-01-01T00:00:00+00:00Z'')"
proof -
  have cs: "container_selector demo_selectors = Some ''quote''"
    by (simp add: container_selector_def py_or_def truthy_def demo_selectors_def)
  have sel: "select demo_env demo_page1 ''quote'' = Inr (node_children demo_page1)"
    by (simp add: demo_env_def demo_select_def demo_page1_def)
  have j: "1 < length (node_children demo_page1)"
    by (simp add: demo_page1_def)
  have k: "''website'' \<notin> fst ` set demo_selectors" "''item_id'' \<notin> fst ` set demo_selectors"
    "''scraped_at'' \<notin> fst ` set demo_selectors"
    by (simp_all add: demo_selectors_def)
  from provenance_of_records [of demo_selectors demo_env demo_page1 "''books''" world0] cs sel j k
  have "map_of (fst (extract_data_from_soup demo_env demo_page1 demo_selectors ''books'' world0) ! 1)
      ''item_id'' = Some (PyInt (int 1 + 1))
   \<and> map_of (fst (extract_data_from_soup demo_env demo_page1 demo_selectors ''books'' world0) ! 1)
      ''website'' = Some (PyStr ''books'')
   \<and> map_of (fst (extract_data_from_soup demo_env demo_page1 demo_selectors ''books'' world0) ! 1)
      ''scraped_at'' = Some (PyStr (utcnow demo_env (clock_reads world0 + 1) @ ''Z''))"
    by blast
  then show ?thesis by (simp add: demo_env_def)
qed

text \<open>
  Against C9 as stated: with no container selector the page gives one record, and that
  record has no item index.
\<close>

theorem whole_page_record_has_no_index:
  "fst (extract_data_from_soup demo_env demo_page1 [(''text'', ''span'')] ''books'' world0)
     = [[(''website'', PyStr ''books''), (''content'', PyStr ''first page''),
         (''scraped_at'', PyStr ''2024-01-01T00:00:00+00:00Z'')]]
   \<and> map_of (hd (fst (extract_data_from_soup demo_env demo_page1 [(''text'', ''span'')] ''books'' world0)))
        ''item_id'' = None"
  by (simp add: extract_data_from_soup_def container_selector_def py_or_def truthy_def
        page_record_def demo_env_def demo_page1_def world0_def)

section \<open>Properties of the site task\<close>

lemma extract_items_ids:
  assumes "''item_id'' \<notin> fst ` set sels"
  shows "item_ids (fst (extract_items env sels website_name 0 cs w)) = one_to (length cs)"
proof (rule nth_equalityI)
  show "length (item_ids (fst (extract_items env sels website_name 0 cs w))) = length (one_to (length cs))"
    by (simp add: item_ids_def one_to_def extract_items_length)
next
  fix j assume "j < length (item_ids (fst (extract_items env sels website_name 0 cs w)))"
  then have j: "j < length cs" by (simp add: item_ids_def extract_items_length)
  then have "[1..int (length cs)] ! j = 1 + int j"
    by (simp add: nth_upto)
  with j assms show "item_ids (fst (extract_items env sels website_name 0 cs w)) ! j = one_to (length cs) ! j"
    by (simp add: item_ids_def one_to_def extract_items_length extract_items_nth first_item_id)
qed

text \<open>The identifiers of the records of one page: numbered from 1, or none at all.\<close>

lemma extract_block:
  assumes "''item_id'' \<notin> fst ` set sels"
  shows "if truthy (container_selector sels)
         then item_ids (fst (extract_data_from_soup env soup sels website_name w))
              = one_to (length (fst (extract_data_from_soup env soup sels website_name w)))
         else item_ids (fst (extract_data_from_soup env soup sels website_name w)) = [None]"
proof (cases "truthy (container_selector sels)")
  case False
  then show ?thesis
    by (simp add: whole_page_path page_record_def item_ids_def)
next
  case True
  then obtain cs where cs: "container_selector sels = Some cs" "cs \<noteq> []"
    by (auto simp: truthy_def split: option.splits)
  show ?thesis
  proof (cases "select env soup cs")
    case (Inl e)
    with cs True show ?thesis
      by (simp add: extract_data_from_soup_def item_ids_def one_to_def)
  next
    case (Inr containers)
    with cs True assms show ?thesis
      by (simp add: container_path extract_items_ids extract_items_length)
  qed
qed

text \<open>
  A run of the page loop that returns has added to \<^verbatim>\<open>all_data\<close> the block of every page,
  in page order, each page taken in the state in which the run reaches it.
\<close>

lemma scrape_pages_concat:
  assumes "scrape_pages env cfg base sels website_name dly ps all_data w = (Inr recs, w')"
  shows "recs = all_data @ concat (map (\<lambda>(page, w0). page_block env cfg base sels website_name page w0)
                                   (zip ps (page_states env cfg base sels website_name dly ps w)))"
  using assms
proof (induction ps arbitrary: all_data w)
  case Nil
  then show ?case by simp
next
  case (Cons page ps)
  obtain res w1 where g: "get_page_content env cfg (urljoin env base page) None w = (res, w1)"
    by (cases "get_page_content env cfg (urljoin env base page) None w")
  show ?case
  proof (cases res)
    case (Inl e)
    with g Cons.prems show ?thesis by simp
  next
    case (Inr soup)
    have step: "scrape_pages env cfg base sels website_name dly ps
                  (all_data @ page_block env cfg base sels website_name page w)
                  (page_next env cfg base sels website_name dly page w) = (Inr recs, w')"
      using Cons.prems g Inr
      by (auto simp: page_block_def page_next_def Let_def case_prod_unfold
            split: option.splits cfg_value.splits if_splits)
    from Cons.IH [OF step] show ?thesis by simp
  qed
qed

lemma page_states_length:
  "length (page_states env cfg base sels website_name dly ps w) = length ps"
  by (induction ps arbitrary: w) simp_all

lemma item_ids_concat: "item_ids (concat blocks) = concat (map item_ids blocks)"
  by (induction blocks) (simp_all add: item_ids_def)

text \<open>The identifiers of the block of one page.\<close>

lemma page_block_ids:
  assumes "''item_id'' \<notin> fst ` set sels"
  shows "if truthy (container_selector sels)
         then item_ids (page_block env cfg base sels website_name page w)
              = one_to (length (page_block env cfg base sels website_name page w))
         else item_ids (page_block env cfg base sels website_name page w)
              = replicate (length (page_block env cfg base sels website_name page w)) None"
proof -
  have nil: "item_ids [] = one_to 0" "item_ids [] = replicate 0 None"
    by (simp_all add: item_ids_def one_to_def)
  have one: "length (fst (extract_data_from_soup env s sels website_name w1)) = 1"
    if "\<not> truthy (container_selector sels)" for s w1
    using that by (simp add: whole_page_path page_record_def)
  obtain res w1 where g: "get_page_content env cfg (urljoin env base page) None w = (res, w1)"
    by (cases "get_page_content env cfg (urljoin env base page) None w")
  show ?thesis
  proof (cases res)
    case (Inl e)
    with g nil show ?thesis by (simp add: page_block_def)
  next
    case (Inr soup)
    show ?thesis
    proof (cases soup)
      case None
      with Inr g nil show ?thesis by (simp add: page_block_def)
    next
      case (Some s)
      with Inr g have b: "page_block env cfg base sels website_name page w
                            = fst (extract_data_from_soup env s sels website_name w1)"
        by (simp add: page_block_def)
      show ?thesis
        unfolding b
        using extract_block [OF assms, of env s website_name w1] one [of s w1]
        by (auto split: if_splits)
    qed
  qed
qed

section \<open>Claims about the item index\<close>

text \<open>
  C2, as the code has it. For an enabled site whose task returns, the records of the site
  are the concatenation, in page order, of one block for each page of its page list: the
  block of a page is what the extractor returned for the parsed page that the fetcher
  returned for the URL of that page (\<open>page_block\<close>, empty for a page that could not be
  fetched), the pages being taken one after the other (\<open>page_states\<close>). When no selector
  field is itself named \<^verbatim>\<open>item_id\<close>: with a container selector the identifiers of the
  site are \<open>1, \<dots>, n\<close> for the first page, then \<open>1, \<dots>, m\<close> for the second, and so on, \<open>n\<close>,
  \<open>m\<close> the numbers of records of the pages, so the numbering starts again at 1 on every
  page; without a container selector no record has an identifier.
\<close>

theorem item_ids_restart_on_each_page:
  assumes "enabled wc \<noteq> Some False"
    and "base_url wc = Some base"
    and "sels = (case selectors wc of Some s \<Rightarrow> s | None \<Rightarrow> [])"
    and "ps = (case pages wc of Some ps \<Rightarrow> ps | None \<Rightarrow> [''/''])"
    and "dly = (case delay wc of Some d \<Rightarrow> d
                | None \<Rightarrow> (case default_delay cfg of Some d \<Rightarrow> d | None \<Rightarrow> CInt 2))"
    and "''item_id'' \<notin> fst ` set sels"
    and "scrape_website env cfg website_name wc w = (Inr recs, w')"
  shows "length (page_states env cfg base sels website_name dly ps w) = length ps
       \<and> recs = concat (map (\<lambda>(page, w0). page_block env cfg base sels website_name page w0)
                          (zip ps (page_states env cfg base sels website_name dly ps w)))
       \<and> (truthy (container_selector sels) \<longrightarrow>
            item_ids recs
              = concat (map (\<lambda>(page, w0).
                               one_to (length (page_block env cfg base sels website_name page w0)))
                          (zip ps (page_states env cfg base sels website_name dly ps w))))
       \<and> (\<not> truthy (container_selector sels) \<longrightarrow>
            item_ids recs = replicate (length recs) None)"
proof -
  let ?visits = "zip ps (page_states env cfg base sels website_name dly ps w)"
  let ?block = "\<lambda>(page, w0). page_block env cfg base sels website_name page w0"
  have en: "(case enabled wc of Some b \<Rightarrow> b | None \<Rightarrow> True)"
    using assms(1) by (cases "enabled wc") auto
  have "scrape_pages env cfg base sels website_name dly ps [] w = (Inr recs, w')"
    using assms(7) en by (simp add: scrape_website_def assms(2-5))
  from scrape_pages_concat [OF this] have recs: "recs = concat (map ?block ?visits)"
    by simp
  have ids: "item_ids recs = concat (map (\<lambda>v. item_ids (?block v)) ?visits)"
    by (simp add: recs item_ids_concat comp_def)
  have numbered: "item_ids recs
              = concat (map (\<lambda>(page, w0).
                               one_to (length (page_block env cfg base sels website_name page w0)))
                          ?visits)"
    if t: "truthy (container_selector sels)"
  proof -
    have "item_ids (?block v) = (\<lambda>(page, w0).
             one_to (length (page_block env cfg base sels website_name page w0))) v" for v
      using page_block_ids [OF assms(6), of env cfg base website_name "fst v" "snd v"] t
      by (simp add: case_prod_unfold)
    then show ?thesis by (simp only: ids)
  qed
  have none: "item_ids recs = replicate (length recs) None"
    if t: "\<not> truthy (container_selector sels)"
  proof -
    have "item_ids (?block v) = replicate (length (?block v)) None" for v
      using page_block_ids [OF assms(6), of env cfg base website_name "fst v" "snd v"] t
      by (simp add: case_prod_unfold)
    then have "\<forall>x \<in> set (item_ids recs). x = None"
      by (auto simp: ids)
    then have "item_ids recs = replicate (length (item_ids recs)) None"
      by (simp add: replicate_length_same)
    then show ?thesis by (simp add: item_ids_def)
  qed
  from page_states_length [of env cfg base sels website_name dly ps w] recs numbered none
  show ?thesis by blast
qed

text \<open>
  Two pages, two containers on the first and one on the second: the pages are taken in
  order, the second in the state that the first leaves, and the identifiers are those of
  a block of two followed by those of a block of one.
\<close>

theorem item_ids_restart_on_each_page_witness:
  "''item_id'' \<notin> fst ` set demo_selectors
   \<and> page_states demo_env demo_cfg ''http://q'' demo_selectors ''books'' (CInt 0) [''/p1'', ''/p2''] world0
       = [world0, \<lparr>requests = 1, clock_reads = 2, trace = [Attempt ''http://q/p1'' 1]\<rparr>]
   \<and> length (page_block demo_env demo_cfg ''http://q'' demo_selectors ''books'' ''/p1'' world0) = 2
   \<and> length (page_block demo_env demo_cfg ''http://q'' demo_selectors ''books'' ''/p2''
               \<lparr>requests = 1, clock_reads = 2, trace = [Attempt ''http://q/p1'' 1]\<rparr>) = 1
   \<and> fst (scrape_website demo_env demo_cfg ''books'' demo_books world0)
       = Inr (page_block demo_env demo_cfg ''http://q'' demo_selectors ''books'' ''/p1'' world0
              @ page_block demo_env demo_cfg ''http://q'' demo_selectors ''books'' ''/p2''
                  \<lparr>requests = 1, clock_reads = 2, trace = [Attempt ''http://q/p1'' 1]\<rparr>)
   \<and> item_ids (page_block demo_env demo_cfg ''http://q'' demo_selectors ''books'' ''/p1'' world0
               @ page_block demo_env demo_cfg ''http://q'' demo_selectors ''books'' ''/p2''
                   \<lparr>requests = 1, clock_reads = 2, trace = [Attempt ''http://q/p1'' 1]\<rparr>)
       = one_to 2 @ one_to 1"
proof -
  let ?w1 = "\<lparr>requests = 1, clock_reads = 2, trace = [Attempt ''http://q/p1'' 1]\<rparr>"
  let ?b1 = "page_block demo_env demo_cfg ''http://q'' demo_selectors ''books'' ''/p1'' world0"
  let ?b2 = "page_block demo_env demo_cfg ''http://q'' demo_selectors ''books'' ''/p2'' ?w1"
  note run_defs = get_page_content_def world0_def emit_def
          extract_data_from_soup_def container_selector_def py_or_def truthy_def
          demo_env_def demo_select_def demo_page1_def demo_page2_def demo_selectors_def demo_cfg_def
          endswith_def field_value_def Let_def upt_conv_Cons
  have k: "''item_id'' \<notin> fst ` set demo_selectors"
    by (simp add: demo_selectors_def)
  have t: "truthy (container_selector demo_selectors)"
    by (simp add: container_selector_def py_or_def truthy_def demo_selectors_def)
  have e: "enabled demo_books \<noteq> Some False" "base_url demo_books = Some ''http://q''"
    "demo_selectors = (case selectors demo_books of Some s \<Rightarrow> s | None \<Rightarrow> [])"
    "[''/p1'', ''/p2''] = (case pages demo_books of Some ps \<Rightarrow> ps | None \<Rightarrow> [''/''])"
    "CInt 0 = (case delay demo_books of Some d \<Rightarrow> d
                | None \<Rightarrow> (case default_delay demo_cfg of Some d \<Rightarrow> d | None \<Rightarrow> CInt 2))"
    by (simp_all add: demo_books_def)
  have st: "page_states demo_env demo_cfg ''http://q'' demo_selectors ''books'' (CInt 0)
              [''/p1'', ''/p2''] world0 = [world0, ?w1]"
    by (simp add: page_next_def run_defs)
  have l1: "length ?b1 = 2"
    by (simp add: page_block_def run_defs)
  have l2: "length ?b2 = 1"
    by (simp add: page_block_def run_defs)
  have run: "scrape_website demo_env demo_cfg ''books'' demo_books world0
       = (Inr (?b1 @ ?b2),
          \<lparr>requests = 2, clock_reads = 3,
           trace = [Attempt ''http://q/p1'' 1, Attempt ''http://q/p2'' 1]\<rparr>)"
    by (simp add: scrape_website_def demo_books_def page_block_def run_defs)
  from item_ids_restart_on_each_page [OF e k run] t
  have "item_ids (?b1 @ ?b2)
          = concat (map (\<lambda>(page, w0).
               one_to (length (page_block demo_env demo_cfg ''http://q'' demo_selectors ''books'' page w0)))
              (zip [''/p1'', ''/p2'']
                 (page_states demo_env demo_cfg ''http://q'' demo_selectors ''books'' (CInt 0)
                    [''/p1'', ''/p2''] world0)))"
    by blast
  then have ids: "item_ids (?b1 @ ?b2) = one_to 2 @ one_to 1"
    by (simp only: st zip_Cons_Cons zip_Nil list.map concat.simps case_prod_conv l1 l2 append_Nil2)
  from k st l1 l2 run ids show ?thesis by simp
qed

text \<open>
  Against C2 as stated: on that site the three records carry the identifiers 1, 2, 1 and
  not 1, 2, 3.
\<close>

theorem item_ids_repeat_across_pages:
  "fst (scrape_website demo_env demo_cfg ''books'' demo_books world0)
     = Inr (fst (extract_data_from_soup demo_env demo_page1 demo_selectors ''books'' world0)
            @ fst (extract_data_from_soup demo_env demo_page2 demo_selectors ''books'' world0))
   \<and> item_ids (fst (extract_data_from_soup demo_env demo_page1 demo_selectors ''books'' world0)
               @ fst (extract_data_from_soup demo_env demo_page2 demo_selectors ''books'' world0))
     = [Some (PyInt 1), Some (PyInt 2), Some (PyInt 1)]
   \<and> item_ids (fst (extract_data_from_soup demo_env demo_page1 demo_selectors ''books'' world0)
               @ fst (extract_data_from_soup demo_env demo_page2 demo_selectors ''books'' world0))
     \<noteq> one_to 3"
  by (simp add: scrape_website_def demo_books_def get_page_content_def world0_def emit_def
        extract_data_from_soup_def container_selector_def py_or_def truthy_def
        demo_env_def demo_select_def demo_page1_def demo_page2_def demo_selectors_def demo_cfg_def
        endswith_def field_value_def Let_def upt_conv_Cons item_ids_def one_to_def upto.simps)

section \<open>Properties of the scheduler and of the report\<close>

text \<open>
  With distinct site names every future adds a new key, so the collecting loop appends
  one entry for each future, in the order in which the futures complete.
\<close>

lemma collect_closed:
  "distinct (map fst acc @ map fst fs) \<Longrightarrow> collect fs acc = acc @ map settle fs"
proof (induction fs arbitrary: acc)
  case Nil
  show ?case by simp
next
  case (Cons f fs)
  obtain n r where f: "f = (n, r)" by (cases f)
  from Cons.prems f have nin: "n \<notin> fst ` set acc" by auto
  have d: "distinct (map fst (acc @ [settle f]) @ map fst fs)"
    using Cons.prems f by (auto simp: settle_def)
  show ?case
    using Cons.IH [OF d] f nin
    by (cases r) (simp_all add: settle_def dict_set_append)
qed

lemma submit_all_names: "map fst (submit_all envs cfg sites) = map fst sites"
  by (simp add: submit_all_def case_prod_unfold comp_def)

lemma submit_all_member:
  "(name, config) \<in> set sites \<Longrightarrow>
   (name, fst (scrape_website (envs name) cfg name config world0)) \<in> set (submit_all envs cfg sites)"
  by (force simp: submit_all_def)

text \<open>
  Whatever the completion order, a site is stored with what its own task returned, or
  with the empty list when its task raised.
\<close>

lemma collect_completed:
  assumes d: "distinct (map fst sites)"
    and p: "mset (as_completed (submit_all envs cfg sites)) = mset (submit_all envs cfg sites)"
  shows "collect (as_completed (submit_all envs cfg sites)) []
           = map settle (as_completed (submit_all envs cfg sites))"
    and "distinct (map fst (collect (as_completed (submit_all envs cfg sites)) []))"
    and "length (collect (as_completed (submit_all envs cfg sites)) []) = length sites"
    and "(name, config) \<in> set sites \<Longrightarrow>
         map_of (collect (as_completed (submit_all envs cfg sites)) []) name
           = Some (case fst (scrape_website (envs name) cfg name config world0) of
                     Inr data \<Rightarrow> data | Inl e \<Rightarrow> [])"
proof -
  let ?fs = "submit_all envs cfg sites"
  let ?cs = "as_completed ?fs"
  have "mset (map fst ?cs) = mset (map fst ?fs)"
    using p by (metis mset_map)
  then have dc: "distinct (map fst ?cs)"
    using d by (metis submit_all_names mset_eq_imp_distinct_iff)
  then show c: "collect ?cs [] = map settle ?cs"
    using collect_closed [of "[]" ?cs] by simp
  have ks: "map fst (map settle ?cs) = map fst ?cs"
    by (simp add: settle_def comp_def)
  show dr: "distinct (map fst (collect ?cs []))"
    using dc by (simp only: c ks)
  have "length ?cs = length ?fs"
    using p by (metis size_mset)
  moreover have "length ?fs = length sites"
    by (simp add: submit_all_def)
  ultimately show "length (collect ?cs []) = length sites"
    by (simp add: c)
  show "map_of (collect ?cs []) name
           = Some (case fst (scrape_website (envs name) cfg name config world0) of
                     Inr data \<Rightarrow> data | Inl e \<Rightarrow> [])"
    if "(name, config) \<in> set sites"
  proof -
    have "(name, fst (scrape_website (envs name) cfg name config world0)) \<in> set ?cs"
      using submit_all_member [OF that] p by (metis set_mset_mset)
    then have "settle (name, fst (scrape_website (envs name) cfg name config world0))
                 \<in> set (collect ?cs [])"
      by (simp add: c)
    then show ?thesis
      using dr by (simp add: settle_def)
  qed
qed

text \<open>With distinct site names the report loop appends one entry for each site.\<close>

lemma report_loop_closed:
  "distinct (map fst (websites rep) @ map fst sd) \<Longrightarrow>
   report_loop sd rep =
     rep\<lparr>websites := websites rep @ map (\<lambda>(n, d). (n, entry_of d)) sd,
         total_items := total_items rep + sum_list (map (\<lambda>(n, d). length d) sd)\<rparr>"
proof (induction sd arbitrary: rep)
  case Nil
  show ?case by simp
next
  case (Cons p sd)
  obtain n d where p: "p = (n, d)" by (cases p)
  from Cons.prems p have nin: "n \<notin> fst ` set (websites rep)" by auto
  let ?rep1 = "rep\<lparr>websites := websites rep @ [(n, entry_of d)],
                   total_items := total_items rep + length d\<rparr>"
  have d: "distinct (map fst (websites ?rep1) @ map fst sd)"
    using Cons.prems p by auto
  show ?case
    using Cons.IH [OF d] p nin
    by (simp add: dict_set_append Let_def entry_of_def)
qed

lemma generate_report_closed:
  assumes "distinct (map fst scraped_data)"
  shows "generate_report now scraped_data =
           \<lparr>timestamp = now @ ''Z'', user = ''CrypticLuminary'',
            total_websites = length scraped_data,
            websites = map (\<lambda>(n, d). (n, entry_of d)) scraped_data,
            total_items = sum_list (map (\<lambda>(n, d). length d) scraped_data)\<rparr>"
  using assms by (simp add: generate_report_def report_loop_closed)

lemma report_entry:
  assumes "distinct (map fst scraped_data)" and "map_of scraped_data name = Some data"
  shows "map_of (websites (generate_report now scraped_data)) name = Some (entry_of data)"
proof -
  have "map_of (map (\<lambda>(n, d). (n, entry_of d)) scraped_data) name
          = map_option entry_of (map_of scraped_data name)"
    by (induction scraped_data) auto
  with assms show ?thesis by (simp add: generate_report_closed)
qed

section \<open>Claims about the report and the scheduler\<close>

text \<open>
  C5. For a mapping from site names to record lists (the names are the keys of a
  dictionary, hence distinct), the report has one entry for each site, in the order of the
  mapping; \<open>total_items\<close> is the sum of the \<open>items_scraped\<close> of the entries; the entry of
  a site has the length of its record list as \<open>items_scraped\<close>; and \<open>total_websites\<close> is
  the number of sites.
\<close>

theorem report_totals:
  assumes "distinct (map fst scraped_data)"
  shows "total_items (generate_report now scraped_data)
           = sum_list (map (\<lambda>(n, e). items_scraped e) (websites (generate_report now scraped_data)))
       \<and> map fst (websites (generate_report now scraped_data)) = map fst scraped_data
       \<and> (\<forall>name data. (name, data) \<in> set scraped_data \<longrightarrow>
             (\<exists>e. map_of (websites (generate_report now scraped_data)) name = Some e
                  \<and> items_scraped e = length data))
       \<and> total_websites (generate_report now scraped_data) = length scraped_data"
proof -
  let ?rep = "generate_report now scraped_data"
  have w: "websites ?rep = map (\<lambda>(n, d). (n, entry_of d)) scraped_data"
    and t: "total_items ?rep = sum_list (map (\<lambda>(n, d). length d) scraped_data)"
    and c: "total_websites ?rep = length scraped_data"
    using assms by (simp_all add: generate_report_closed)
  have sum: "total_items ?rep = sum_list (map (\<lambda>(n, e). items_scraped e) (websites ?rep))"
    unfolding w t
    by (induction scraped_data) (auto simp: entry_of_def)
  have keys: "map fst (websites ?rep) = map fst scraped_data"
    unfolding w by (induction scraped_data) auto
  have each: "\<exists>e. map_of (websites ?rep) name = Some e \<and> items_scraped e = length data"
    if "(name, data) \<in> set scraped_data" for name data
  proof -
    from that assms have "map_of scraped_data name = Some data" by simp
    from report_entry [OF assms this, of now] show ?thesis
      by (simp add: entry_of_def)
  qed
  from sum keys each c show ?thesis by blast
qed

theorem report_totals_witness:
  "distinct (map fst [(''a'', [[(''website'', PyStr ''a'')], [(''website'', PyStr ''a'')]]),
                      (''b'', []),
                      (''c'', [[(''website'', PyStr ''c'')]])])
   \<and> total_items (generate_report ''t''
         [(''a'', [[(''website'', PyStr ''a'')], [(''website'', PyStr ''a'')]]),
          (''b'', []),
          (''c'', [[(''website'', PyStr ''c'')]])]) = 3
   \<and> websites (generate_report ''t''
         [(''a'', [[(''website'', PyStr ''a'')], [(''website'', PyStr ''a'')]]),
          (''b'', []),
          (''c'', [[(''website'', PyStr ''c'')]])])
       = [(''a'', \<lparr>items_scraped = 2, status = ''success''\<rparr>),
          (''b'', \<lparr>items_scraped = 0, status = ''no_data''\<rparr>),
          (''c'', \<lparr>items_scraped = 1, status = ''success''\<rparr>)]
   \<and> total_websites (generate_report ''t''
         [(''a'', [[(''website'', PyStr ''a'')], [(''website'', PyStr ''a'')]]),
          (''b'', []),
          (''c'', [[(''website'', PyStr ''c'')]])]) = 3"
proof -
  let ?sd = "[(''a'', [[(''website'', PyStr ''a'')], [(''website'', PyStr ''a'')]]),
              (''b'', []),
              (''c'', [[(''website'', PyStr ''c'')]])]"
  have d: "distinct (map fst ?sd)" by simp
  have w: "websites (generate_report ''t'' ?sd)
       = [(''a'', \<lparr>items_scraped = 2, status = ''success''\<rparr>),
          (''b'', \<lparr>items_scraped = 0, status = ''no_data''\<rparr>),
          (''c'', \<lparr>items_scraped = 1, status = ''success''\<rparr>)]"
    by (simp add: generate_report_def Let_def)
  from report_totals [OF d, of "''t''"] have
    "total_items (generate_report ''t'' ?sd)
       = sum_list (map (\<lambda>(n, e). items_scraped e) (websites (generate_report ''t'' ?sd)))"
    "total_websites (generate_report ''t'' ?sd) = length ?sd"
    by blast+
  with d w show ?thesis by simp
qed

lemma sum_list_completed:
  fixes g :: "'a \<Rightarrow> nat"
  assumes "mset xs = mset ys"
  shows "sum_list (map g xs) = sum_list (map g ys)"
proof -
  have "sum_mset (mset (map g xs)) = sum_mset (mset (map g ys))"
    using assms by (metis mset_map)
  then show ?thesis by (simp only: sum_mset_sum_list)
qed

lemma total_items_completed:
  assumes d: "distinct (map fst sites)"
    and p: "mset (as_completed (submit_all envs cfg sites)) = mset (submit_all envs cfg sites)"
  shows "total_items (generate_report now (collect (as_completed (submit_all envs cfg sites)) []))
           = sum_list (map (\<lambda>f. length (snd (settle f))) (submit_all envs cfg sites))"
proof -
  let ?cs = "as_completed (submit_all envs cfg sites)"
  have "total_items (generate_report now (collect ?cs []))
          = sum_list (map (\<lambda>(n, d). length d) (map settle ?cs))"
    using collect_completed(1,2) [where as_completed = as_completed, OF d p]
    by (simp add: generate_report_closed)
  also have "\<dots> = sum_list (map (\<lambda>f. length (snd (settle f))) ?cs)"
    by (simp add: comp_def case_prod_unfold)
  also have "\<dots> = sum_list (map (\<lambda>f. length (snd (settle f))) (submit_all envs cfg sites))"
    using p by (rule sum_list_completed)
  finally show ?thesis .
qed

text \<open>
  C4. For sites with distinct names, a pool of at least one worker, and any order in which
  the futures complete: the crawl returns a mapping with one entry for each site. The
  entry of a site is what the task of that site returned, or the empty list when that task
  raised; it is a function of that site's own task alone, so a fault in one task changes no
  other entry. The report is built over all the sites, each with the entry of its own
  record list, also when every task raised.
\<close>

theorem site_faults_are_isolated:
  assumes "distinct (map fst sites)"
    and "mset (as_completed (submit_all envs cfg sites)) = mset (submit_all envs cfg sites)"
    and "0 < (case max_workers cfg of Some m \<Rightarrow> m | None \<Rightarrow> 3)"
  shows "\<exists>result.
           scrape_all_websites envs cfg as_completed sites = Inr result
         \<and> length result = length sites
         \<and> (\<forall>name config. (name, config) \<in> set sites \<longrightarrow>
               map_of result name
                 = Some (case fst (scrape_website (envs name) cfg name config world0) of
                           Inr data \<Rightarrow> data | Inl e \<Rightarrow> [])
             \<and> map_of (websites (generate_report now result)) name
                 = Some (entry_of (case fst (scrape_website (envs name) cfg name config world0) of
                                     Inr data \<Rightarrow> data | Inl e \<Rightarrow> [])))
         \<and> total_websites (generate_report now result) = length sites"
proof -
  let ?result = "collect (as_completed (submit_all envs cfg sites)) []"
  note c = collect_completed [where as_completed = as_completed, OF assms(1,2)]
  have run: "scrape_all_websites envs cfg as_completed sites = Inr ?result"
    using assms(3) by (simp add: scrape_all_websites_def Let_def)
  have len: "length ?result = length sites"
    by (rule c(3))
  have each: "map_of ?result name
                 = Some (case fst (scrape_website (envs name) cfg name config world0) of
                           Inr data \<Rightarrow> data | Inl e \<Rightarrow> [])
             \<and> map_of (websites (generate_report now ?result)) name
                 = Some (entry_of (case fst (scrape_website (envs name) cfg name config world0) of
                                     Inr data \<Rightarrow> data | Inl e \<Rightarrow> []))"
    if "(name, config) \<in> set sites" for name config
    using c(4) [OF that] report_entry [OF c(2)] by simp
  have tw: "total_websites (generate_report now ?result) = length sites"
    using c(2) len by (simp add: generate_report_closed)
  from run len each tw show ?thesis by blast
qed

text \<open>Both tasks raise, one on the missing base URL and one on its delay.\<close>

theorem site_faults_are_isolated_witness:
  "distinct (map fst demo_broken)
   \<and> fst (scrape_website demo_env demo_cfg ''nobase'' (demo_books\<lparr>base_url := None\<rparr>) world0)
       = Inl KeyError
   \<and> fst (scrape_website demo_env demo_cfg ''flaky'' demo_flaky world0) = Inl TypeError
   \<and> (\<exists>result.
         scrape_all_websites demo_envs demo_cfg rev demo_broken = Inr result
       \<and> length result = 2
       \<and> map_of result ''nobase'' = Some []
       \<and> map_of result ''flaky'' = Some []
       \<and> map_of (websites (generate_report ''t'' result)) ''flaky''
           = Some \<lparr>items_scraped = 0, status = ''no_data''\<rparr>
       \<and> total_websites (generate_report ''t'' result) = 2)"
proof -
  have d: "distinct (map fst demo_broken)"
    by (simp add: demo_broken_def)
  have p: "mset (rev (submit_all demo_envs demo_cfg demo_broken))
             = mset (submit_all demo_envs demo_cfg demo_broken)"
    by simp
  have m: "0 < (case max_workers demo_cfg of Some m \<Rightarrow> m | None \<Rightarrow> (3::int))"
    by (simp add: demo_cfg_def)
  have k: "fst (scrape_website demo_env demo_cfg ''nobase'' (demo_books\<lparr>base_url := None\<rparr>) world0)
       = Inl KeyError"
    by (simp add: scrape_website_def demo_books_def)
  have t: "fst (scrape_website demo_env demo_cfg ''flaky'' demo_flaky world0) = Inl TypeError"
    by (simp add: scrape_website_def demo_flaky_def get_page_content_def world0_def emit_def
          extract_data_from_soup_def container_selector_def py_or_def truthy_def
          demo_env_def demo_select_def demo_page1_def demo_selectors_def demo_cfg_def
          endswith_def field_value_def Let_def upt_conv_Cons)
  have s: "(''nobase'', demo_books\<lparr>base_url := None\<rparr>) \<in> set demo_broken"
    "(''flaky'', demo_flaky) \<in> set demo_broken"
    by (simp_all add: demo_broken_def)
  from site_faults_are_isolated [where as_completed = rev, OF d p m, of "''t''"] obtain result where
    r: "scrape_all_websites demo_envs demo_cfg rev demo_broken = Inr result"
       "length result = length demo_broken"
       "total_websites (generate_report ''t'' result) = length demo_broken"
    and e: "\<And>name config. (name, config) \<in> set demo_broken \<Longrightarrow>
               map_of result name
                 = Some (case fst (scrape_website (demo_envs name) demo_cfg name config world0) of
                           Inr data \<Rightarrow> data | Inl e \<Rightarrow> [])
             \<and> map_of (websites (generate_report ''t'' result)) name
                 = Some (entry_of (case fst (scrape_website (demo_envs name) demo_cfg name config world0) of
                                     Inr data \<Rightarrow> data | Inl e \<Rightarrow> []))"
    by blast
  from e [OF s(1)] e [OF s(2)] k t
  have "map_of result ''nobase'' = Some []" "map_of result ''flaky'' = Some []"
    "map_of (websites (generate_report ''t'' result)) ''flaky''
           = Some \<lparr>items_scraped = 0, status = ''no_data''\<rparr>"
    by (simp_all add: demo_envs_def entry_of_def)
  with r d k t show ?thesis
    by (simp add: demo_broken_def)
qed

text \<open>
  C1, as the code has it. In a crawl of two sites where the task of the first raises (with
  however many records in its accumulator) and the task of the second returns 5 records,
  the result maps the first site to the empty list and the second to its 5 records; the
  report gives the first \<^verbatim>\<open>no_data\<close> with 0 items and the second \<^verbatim>\<open>success\<close> with 5
  items, and \<open>total_items\<close> is 5. The records of the faulted task are lost with its
  accumulator, and the report has no status other than \<^verbatim>\<open>success\<close> and \<^verbatim>\<open>no_data\<close>.
\<close>

theorem faulted_site_is_reported_empty:
  assumes "a \<noteq> b"
    and "mset (as_completed (submit_all envs cfg [(a, ca), (b, cb)]))
           = mset (submit_all envs cfg [(a, ca), (b, cb)])"
    and "0 < (case max_workers cfg of Some m \<Rightarrow> m | None \<Rightarrow> 3)"
    and "fst (scrape_website (envs a) cfg a ca world0) = Inl e"
    and "fst (scrape_website (envs b) cfg b cb world0) = Inr data"
    and "length data = 5"
  shows "\<exists>result.
           scrape_all_websites envs cfg as_completed [(a, ca), (b, cb)] = Inr result
         \<and> map_of result a = Some []
         \<and> map_of result b = Some data
         \<and> map_of (websites (generate_report now result)) a
             = Some \<lparr>items_scraped = 0, status = ''no_data''\<rparr>
         \<and> map_of (websites (generate_report now result)) b
             = Some \<lparr>items_scraped = 5, status = ''success''\<rparr>
         \<and> total_items (generate_report now result) = 5
         \<and> list_all (\<lambda>(n, entry). status entry = ''success'' \<or> status entry = ''no_data'')
              (websites (generate_report now result))"
proof -
  let ?sites = "[(a, ca), (b, cb)]"
  let ?result = "collect (as_completed (submit_all envs cfg ?sites)) []"
  have d: "distinct (map fst ?sites)"
    using assms(1) by simp
  note c = collect_completed [where as_completed = as_completed, OF d assms(2)]
  have run: "scrape_all_websites envs cfg as_completed ?sites = Inr ?result"
    using assms(3) by (simp add: scrape_all_websites_def Let_def)
  have ra: "map_of ?result a = Some []"
    using c(4) [of a ca] assms(4) by simp
  have rb: "map_of ?result b = Some data"
    using c(4) [of b cb] assms(5) by simp
  have ea: "map_of (websites (generate_report now ?result)) a
             = Some \<lparr>items_scraped = 0, status = ''no_data''\<rparr>"
    using report_entry [OF c(2) ra, of now] by (simp add: entry_of_def)
  have eb: "map_of (websites (generate_report now ?result)) b
             = Some \<lparr>items_scraped = 5, status = ''success''\<rparr>"
    using report_entry [OF c(2) rb, of now] assms(6) by (simp add: entry_of_def)
  have tot: "total_items (generate_report now ?result) = 5"
    using total_items_completed [where as_completed = as_completed, OF d assms(2), of now] assms(4,5,6)
    by (simp add: submit_all_def settle_def)
  have st: "list_all (\<lambda>(n, entry). status entry = ''success'' \<or> status entry = ''no_data'')
              (websites (generate_report now ?result))"
    using c(2) by (simp add: generate_report_closed list_all_iff entry_of_def case_prod_unfold)
  from run ra rb ea eb tot st show ?thesis by blast
qed

theorem faulted_site_is_reported_empty_witness:
  "fst (scrape_website (demo_envs ''flaky'') demo_cfg ''flaky'' demo_flaky world0) = Inl TypeError
   \<and> fst (scrape_website (demo_envs ''steady'') demo_cfg ''steady'' demo_steady world0)
       = Inr (fst (extract_data_from_soup demo_env demo_page5 demo_selectors ''steady'' world0))
   \<and> length (fst (extract_data_from_soup demo_env demo_page5 demo_selectors ''steady'' world0)) = 5
   \<and> (\<exists>result.
         scrape_all_websites demo_envs demo_cfg rev [(''flaky'', demo_flaky), (''steady'', demo_steady)]
           = Inr result
       \<and> map_of result ''flaky'' = Some []
       \<and> map_of (websites (generate_report ''t'' result)) ''flaky''
           = Some \<lparr>items_scraped = 0, status = ''no_data''\<rparr>
       \<and> map_of (websites (generate_report ''t'' result)) ''steady''
           = Some \<lparr>items_scraped = 5, status = ''success''\<rparr>
       \<and> total_items (generate_report ''t'' result) = 5)"
proof -
  let ?five = "fst (extract_data_from_soup demo_env demo_page5 demo_selectors ''steady'' world0)"
  have n: "''flaky'' \<noteq> ''steady''" by simp
  have p: "mset (rev (submit_all demo_envs demo_cfg [(''flaky'', demo_flaky), (''steady'', demo_steady)]))
             = mset (submit_all demo_envs demo_cfg [(''flaky'', demo_flaky), (''steady'', demo_steady)])"
    by simp
  have m: "0 < (case max_workers demo_cfg of Some m \<Rightarrow> m | None \<Rightarrow> (3::int))"
    by (simp add: demo_cfg_def)
  have t: "fst (scrape_website (demo_envs ''flaky'') demo_cfg ''flaky'' demo_flaky world0) = Inl TypeError"
    by (simp add: scrape_website_def demo_flaky_def get_page_content_def world0_def emit_def
          extract_data_from_soup_def container_selector_def py_or_def truthy_def demo_envs_def
          demo_env_def demo_select_def demo_page1_def demo_selectors_def demo_cfg_def
          endswith_def field_value_def Let_def upt_conv_Cons)
  have s: "fst (scrape_website (demo_envs ''steady'') demo_cfg ''steady'' demo_steady world0) = Inr ?five"
    by (simp add: scrape_website_def demo_steady_def get_page_content_def world0_def emit_def
          extract_data_from_soup_def container_selector_def py_or_def truthy_def demo_envs_def
          demo_env_def demo_select_def demo_page5_def demo_selectors_def demo_cfg_def
          endswith_def field_value_def Let_def upt_conv_Cons)
  have l: "length ?five = 5"
    by (simp add: extract_data_from_soup_def container_selector_def py_or_def truthy_def
          demo_env_def demo_select_def demo_page5_def demo_selectors_def Let_def world0_def)
  from faulted_site_is_reported_empty [where as_completed = rev, OF n p m t s l, of "''t''"] t s l
  show ?thesis by blast
qed

text \<open>
  Against C1 as stated: the task of \<open>flaky\<close> has extracted the 2 records of its first page
  when it raises, and the other site returns 5 records; the result holds no record for
  \<open>flaky\<close>, its status is \<^verbatim>\<open>no_data\<close>, and \<open>total_items\<close> is 5, not 7.
\<close>

theorem faulted_site_loses_its_records:
  "scrape_website (demo_envs ''flaky'') demo_cfg ''flaky'' demo_flaky world0
     = (Inl TypeError, \<lparr>requests = 1, clock_reads = 2, trace = [Attempt ''http://q/p1'' 1]\<rparr>)
   \<and> length (fst (extract_data_from_soup demo_env demo_page1 demo_selectors ''flaky'' world0)) = 2
   \<and> length (fst (extract_data_from_soup demo_env demo_page5 demo_selectors ''steady'' world0)) = 5
   \<and> scrape_all_websites demo_envs demo_cfg rev demo_sites
       = Inr [(''steady'', fst (extract_data_from_soup demo_env demo_page5 demo_selectors ''steady'' world0)),
              (''flaky'', [])]
   \<and> websites (generate_report ''t''
        [(''steady'', fst (extract_data_from_soup demo_env demo_page5 demo_selectors ''steady'' world0)),
         (''flaky'', [])])
       = [(''steady'', \<lparr>items_scraped = 5, status = ''success''\<rparr>),
          (''flaky'', \<lparr>items_scraped = 0, status = ''no_data''\<rparr>)]
   \<and> total_items (generate_report ''t''
        [(''steady'', fst (extract_data_from_soup demo_env demo_page5 demo_selectors ''steady'' world0)),
         (''flaky'', [])]) = 5"
  by (simp add: scrape_all_websites_def submit_all_def demo_sites_def generate_report_def
        scrape_website_def demo_flaky_def demo_steady_def get_page_content_def world0_def emit_def
        extract_data_from_soup_def container_selector_def py_or_def truthy_def demo_envs_def
        demo_env_def demo_select_def demo_page1_def demo_page5_def demo_selectors_def demo_cfg_def
        endswith_def field_value_def Let_def upt_conv_Cons)

end
